theory Spec2Isabelle
  imports Complex_Main "HOL-Library.Word"
begin

unbundle bit_operations_syntax

section \<open>JavaScript numbers and errors\<close>

text \<open>
  A JavaScript number is an IEEE-754 double. Every finite double is a rational number, so
  the finite numbers are embedded as \<open>Fin q\<close>; the four values that are not rationals
  are constructors of their own. The model accepts every rational, a superset of the
  finite doubles.
\<close>

datatype jsnum = Fin rat | NegZero | PosInf | NegInf | NaN

definition num :: "int \<Rightarrow> jsnum" where
  "num i = Fin (of_int i)"

text \<open>
  The errors the client can throw. The first six are raised by \<open>throw new Error(...)\<close>
  in \<open>modbus-client.js\<close>; \<open>RangeError\<close> and \<open>TypeError\<close> are raised by the Node
  runtime (a Buffer access outside its bounds or a value outside the integer range; a
  property read on \<open>undefined\<close>) and carry the constant part of Node's message;
  \<open>TransportError\<close> is a rejection of the \<open>modbus-serial\<close> transport with its message.
\<close>

datatype error =
    UnknownRegister string
  | NotReadable string
  | NotWritable string
  | NotConnected
  | UnknownType string
  | CannotEncode string
  | RangeError string
  | TypeError string
  | TransportError string

fun message :: "error \<Rightarrow> string" where
  "message (UnknownRegister n) = ''Unknown register: '' @ n"
| "message (NotReadable n) = ''Register '' @ n @ '' is not readable''"
| "message (NotWritable n) = ''Register '' @ n @ '' is not writable''"
| "message NotConnected = ''Not connected to Modbus device''"
| "message (UnknownType t) = ''Unknown register type: '' @ t"
| "message (CannotEncode t) = ''Cannot encode type: '' @ t"
| "message (RangeError m) = m"
| "message (TypeError m) = m"
| "message (TransportError m) = m"

definition and_then :: "error + 'a \<Rightarrow> ('a \<Rightarrow> error + 'b) \<Rightarrow> error + 'b" where
  "and_then r f = (case r of Inl e \<Rightarrow> Inl e | Inr x \<Rightarrow> f x)"

subsection \<open>Number conversions and the 32-bit operators\<close>

text \<open>
  \<open>ToInt32\<close> of ECMAScript: truncate towards zero, reduce modulo \<open>2^32\<close>; NaN, the
  infinities and \<open>-0\<close> give 0. The operators \<open>&\<close>, \<open>|\<close>, \<open><<\<close> and \<open>>>\<close> convert
  their operands with it and return the result read as a signed 32-bit integer.
\<close>

fun js_trunc :: "jsnum \<Rightarrow> int" where
  "js_trunc (Fin x) = (if 0 \<le> x then \<lfloor>x\<rfloor> else \<lceil>x\<rceil>)"
| "js_trunc NegZero = 0"
| "js_trunc PosInf = 0"
| "js_trunc NegInf = 0"
| "js_trunc NaN = 0"

definition ToInt32 :: "jsnum \<Rightarrow> 32 word" where
  "ToInt32 v = word_of_int (js_trunc v)"

definition js_and :: "jsnum \<Rightarrow> jsnum \<Rightarrow> jsnum" where
  "js_and a b = num (sint (ToInt32 a AND ToInt32 b))"

definition js_or :: "jsnum \<Rightarrow> jsnum \<Rightarrow> jsnum" where
  "js_or a b = num (sint (ToInt32 a OR ToInt32 b))"

definition js_shl :: "jsnum \<Rightarrow> nat \<Rightarrow> jsnum" where
  "js_shl a n = num (sint (push_bit (n mod 32) (ToInt32 a)))"

definition js_sar :: "jsnum \<Rightarrow> nat \<Rightarrow> jsnum" where
  "js_sar a n = num (sint (signed_drop_bit (n mod 32) (ToInt32 a)))"

text \<open>\<open>value > max || value < min\<close> of Node's \<open>checkInt\<close>; every comparison with NaN is false.\<close>

fun out_of_range :: "jsnum \<Rightarrow> int \<Rightarrow> int \<Rightarrow> bool" where
  "out_of_range (Fin x) lo hi = (x > of_int hi \<or> x < of_int lo)"
| "out_of_range NegZero lo hi = (0 > hi \<or> 0 < lo)"
| "out_of_range PosInf lo hi = True"
| "out_of_range NegInf lo hi = True"
| "out_of_range NaN lo hi = False"

subsection \<open>IEEE-754 single precision\<close>

definition pow2 :: "int \<Rightarrow> rat" where
  "pow2 e = (if 0 \<le> e then 2 ^ nat e else 1 / 2 ^ nat (- e))"

text \<open>The number a 32-bit pattern denotes: sign bit, 8 exponent bits, 23 fraction bits.\<close>

definition float32_value :: "32 word \<Rightarrow> jsnum" where
  "float32_value w =
     (let s = bit w 31;
          e = unat (drop_bit 23 w AND 0xFF);
          m = unat (w AND 0x7FFFFF);
          sg = (if s then - 1 else 1 :: rat)
      in if e = 255 then (if m = 0 then (if s then NegInf else PosInf) else NaN)
         else if e = 0 then
           (if m = 0 then (if s then NegZero else Fin 0)
            else Fin (sg * of_nat m * pow2 (- 149)))
         else Fin (sg * of_nat (2 ^ 23 + m) * pow2 (int e - 150)))"

text \<open>
  The conversion of a number to single precision that \<open>float32Array[0] = val\<close> performs:
  round to nearest, ties to even; overflow gives an infinity, NaN the canonical quiet NaN.
\<close>

function bit_length :: "int \<Rightarrow> int" where
  "bit_length n = (if n \<le> 0 then 0 else 1 + bit_length (n div 2))"
  by pat_completeness auto
termination
  by (relation "measure nat") auto

definition floor_log2 :: "rat \<Rightarrow> int" where
  "floor_log2 a =
     (let (p, q) = quotient_of a;
          d = bit_length p - bit_length q
      in if pow2 d \<le> a then d else d - 1)"

definition round_half_even :: "rat \<Rightarrow> int" where
  "round_half_even x =
     (let f = \<lfloor>x\<rfloor>; d = x - of_int f
      in if d < 1 / 2 then f else if 1 / 2 < d then f + 1
         else if even f then f else f + 1)"

definition float32_magnitude :: "rat \<Rightarrow> 32 word" where
  "float32_magnitude a =
     (if a = 0 then 0
      else let e = max (floor_log2 a) (- 126);
               m = round_half_even (a / pow2 (e - 23));
               bits = (e + 126) * 2 ^ 23 + m
           in if 0x7F800000 \<le> bits then 0x7F800000 else word_of_int bits)"

fun float32_bits :: "jsnum \<Rightarrow> 32 word" where
  "float32_bits (Fin x) =
     (if x < 0 then float32_magnitude (- x) OR 0x80000000 else float32_magnitude x)"
| "float32_bits NegZero = 0x80000000"
| "float32_bits PosInf = 0x7F800000"
| "float32_bits NegInf = 0xFF800000"
| "float32_bits NaN = 0x7FC00000"

section \<open>Node Buffer operations\<close>

type_synonym byte = "8 word"
type_synonym buffer = "byte list"

text \<open>
  \<open>Buffer.allocUnsafe(n)\<close> returns \<open>n\<close> bytes of unspecified content. The client writes
  every byte before it reads it, so the model fills the buffer with zeros.
\<close>

definition allocUnsafe :: "nat \<Rightarrow> buffer" where
  "allocUnsafe n = replicate n 0"

definition out_of_bounds :: error where
  "out_of_bounds = RangeError ''Attempt to access memory outside buffer bounds''"

definition offset_out_of_range :: error where
  "offset_out_of_range = RangeError ''The value of \"offset\" is out of range.''"

text \<open>
  Node's \<open>boundsError(offset, buf.length - n)\<close> for an access of \<open>n\<close> bytes that does not
  fit: a buffer shorter than \<open>n\<close> bytes gives \<open>ERR_BUFFER_OUT_OF_BOUNDS\<close>, a longer one
  \<open>ERR_OUT_OF_RANGE\<close> for the offset.
\<close>

definition boundsError :: "buffer \<Rightarrow> nat \<Rightarrow> error" where
  "boundsError buf n = (if length buf < n then out_of_bounds else offset_out_of_range)"

definition value_out_of_range :: error where
  "value_out_of_range = RangeError ''The value of \"value\" is out of range.''"

definition word16 :: "byte \<Rightarrow> byte \<Rightarrow> 16 word" where
  "word16 hi lo = push_bit 8 (ucast hi) OR ucast lo"

definition readUInt16BE :: "buffer \<Rightarrow> nat \<Rightarrow> error + jsnum" where
  "readUInt16BE buf off =
     (if off + 2 \<le> length buf then Inr (num (uint (word16 (buf ! off) (buf ! (off + 1)))))
      else Inl (boundsError buf 2))"

definition readInt16BE :: "buffer \<Rightarrow> nat \<Rightarrow> error + jsnum" where
  "readInt16BE buf off =
     (if off + 2 \<le> length buf then Inr (num (sint (word16 (buf ! off) (buf ! (off + 1)))))
      else Inl (boundsError buf 2))"

text \<open>
  \<open>writeUInt16BE\<close> and \<open>writeInt16BE\<close> share Node's \<open>writeU_Int16BE\<close>: the value is checked
  against the integer range first, then the offset against the buffer, then the two bytes
  \<open>value >>> 8\<close> and \<open>value\<close> are stored (a typed-array store keeps the low 8 bits of
  the truncated number).
\<close>

definition writeU_Int16BE :: "buffer \<Rightarrow> jsnum \<Rightarrow> nat \<Rightarrow> int \<Rightarrow> int \<Rightarrow> error + buffer" where
  "writeU_Int16BE buf v off lo hi =
     (if out_of_range v lo hi then Inl value_out_of_range
      else if off + 2 \<le> length buf then
        (let w = (word_of_int (js_trunc v) :: 16 word)
         in Inr (buf[off := ucast (drop_bit 8 w), off + 1 := ucast w]))
      else Inl (boundsError buf 2))"

definition writeUInt16BE :: "buffer \<Rightarrow> jsnum \<Rightarrow> nat \<Rightarrow> error + buffer" where
  "writeUInt16BE buf v off = writeU_Int16BE buf v off 0 0xFFFF"

definition writeInt16BE :: "buffer \<Rightarrow> jsnum \<Rightarrow> nat \<Rightarrow> error + buffer" where
  "writeInt16BE buf v off = writeU_Int16BE buf v off (- 0x8000) 0x7FFF"

definition word32 :: "byte \<Rightarrow> byte \<Rightarrow> byte \<Rightarrow> byte \<Rightarrow> 32 word" where
  "word32 a b c d =
     push_bit 24 (ucast a) OR push_bit 16 (ucast b) OR push_bit 8 (ucast c) OR ucast d"

definition readFloatBE :: "buffer \<Rightarrow> nat \<Rightarrow> error + jsnum" where
  "readFloatBE buf off =
     (if off + 4 \<le> length buf then
        Inr (float32_value (word32 (buf ! off) (buf ! (off + 1)) (buf ! (off + 2)) (buf ! (off + 3))))
      else Inl (boundsError buf 4))"

definition writeFloatBE :: "buffer \<Rightarrow> jsnum \<Rightarrow> nat \<Rightarrow> error + buffer" where
  "writeFloatBE buf v off =
     (if off + 4 \<le> length buf then
        (let w = float32_bits v
         in Inr (buf[off := ucast (drop_bit 24 w), off + 1 := ucast (drop_bit 16 w),
                     off + 2 := ucast (drop_bit 8 w), off + 3 := ucast w]))
      else Inl (boundsError buf 4))"

text \<open>
  \<open>buf.toString('ascii')\<close> clears the highest bit of every byte and yields one character
  per byte; \<open>replace(/\0/g, '')\<close> deletes every NUL; \<open>trim()\<close> removes the white space
  and line terminators at both ends (of the characters below 128: TAB, LF, VT, FF, CR
  and the space).
\<close>

definition toString_ascii :: "buffer \<Rightarrow> string" where
  "toString_ascii buf = map (\<lambda>b. char_of (unat (b AND 0x7F))) buf"

definition remove_nul :: "string \<Rightarrow> string" where
  "remove_nul s = filter (\<lambda>c. c \<noteq> char_of (0 :: nat)) s"

definition is_space :: "char \<Rightarrow> bool" where
  "is_space c = (of_char c \<in> {9, 10, 11, 12, 13, 32 :: nat})"

definition trim :: "string \<Rightarrow> string" where
  "trim s = rev (dropWhile is_space (rev (dropWhile is_space s)))"

section \<open>The register catalog\<close>

text \<open>
  A register definition of \<open>registers.js\<close>; of its fields the client reads \<open>address\<close>,
  \<open>length\<close>, \<open>type\<close> and \<open>access\<close> (here \<open>length'\<close> and \<open>type'\<close>).
\<close>

record register =
  address :: nat
  length' :: nat
  type' :: string
  access :: string

definition REGISTERS :: "(string \<times> register) list" where
  "REGISTERS = [
    (''MODBUS_VERSION'', \<lparr>address = 0x0000, length' = 1, type' = ''uint16'', access = ''R''\<rparr>),
    (''FIRMWARE_VERSION'', \<lparr>address = 0x0001, length' = 8, type' = ''ascii'', access = ''R''\<rparr>),
    (''SERIAL_NUMBER'', \<lparr>address = 0x0013, length' = 8, type' = ''ascii'', access = ''R''\<rparr>),
    (''EVSE_STATE'', \<lparr>address = 0x0100, length' = 1, type' = ''uint16'', access = ''R''\<rparr>),
    (''AUTHORIZATION_STATUS'', \<lparr>address = 0x0101, length' = 1, type' = ''uint16'', access = ''R''\<rparr>),
    (''DOWNGRADE'', \<lparr>address = 0x0102, length' = 1, type' = ''uint16'', access = ''R''\<rparr>),
    (''PHASE_ROTATION'', \<lparr>address = 0x0103, length' = 1, type' = ''uint16'', access = ''R''\<rparr>),
    (''CP_STATE'', \<lparr>address = 0x0108, length' = 1, type' = ''uint16'', access = ''R''\<rparr>),
    (''SIGNALED_CURRENT'', \<lparr>address = 0x0114, length' = 2, type' = ''float'', access = ''R''\<rparr>),
    (''DOWNGRADE_CURRENT'', \<lparr>address = 0x0300, length' = 2, type' = ''float'', access = ''R''\<rparr>),
    (''CHARGING_CURRENT_EM'', \<lparr>address = 0x0302, length' = 2, type' = ''float'', access = ''RW''\<rparr>),
    (''MAX_CURRENT_HOUSE'', \<lparr>address = 0x0304, length' = 2, type' = ''float'', access = ''R''\<rparr>),
    (''MAX_CURRENT_EVSE'', \<lparr>address = 0x0306, length' = 2, type' = ''float'', access = ''R''\<rparr>),
    (''PHASE_SWITCHING_MODE'', \<lparr>address = 0x030A, length' = 1, type' = ''uint16'', access = ''R''\<rparr>),
    (''PHASE_OPTIONS_HW'', \<lparr>address = 0x030C, length' = 1, type' = ''uint16'', access = ''R''\<rparr>),
    (''CABLE_LOCK_CONFIG'', \<lparr>address = 0x030D, length' = 1, type' = ''uint16'', access = ''R''\<rparr>),
    (''MASTER_LOST_FALLBACK_CURRENT'', \<lparr>address = 0x030E, length' = 1, type' = ''uint16'', access = ''R''\<rparr>),
    (''GRID_IMBALANCE'', \<lparr>address = 0x030F, length' = 1, type' = ''uint16'', access = ''R''\<rparr>),
    (''GRID_IMBALANCE_THRESHOLD'', \<lparr>address = 0x0310, length' = 1, type' = ''uint16'', access = ''R''\<rparr>),
    (''GRID_PHASES_CONNECTED'', \<lparr>address = 0x0311, length' = 1, type' = ''uint16'', access = ''R''\<rparr>),
    (''AUTHORIZATION'', \<lparr>address = 0x0312, length' = 1, type' = ''uint16'', access = ''R''\<rparr>),
    (''SOLAR_SUPPORTED_CHARGING_CURRENT'', \<lparr>address = 0x0313, length' = 1, type' = ''uint16'', access = ''R''\<rparr>),
    (''PHASE_SWITCHING_PAUSE'', \<lparr>address = 0x0314, length' = 1, type' = ''uint16'', access = ''R''\<rparr>),
    (''CURRENT_L1'', \<lparr>address = 0x0500, length' = 2, type' = ''float'', access = ''R''\<rparr>),
    (''CURRENT_L2'', \<lparr>address = 0x0502, length' = 2, type' = ''float'', access = ''R''\<rparr>),
    (''CURRENT_L3'', \<lparr>address = 0x0504, length' = 2, type' = ''float'', access = ''R''\<rparr>),
    (''VOLTAGE_L1'', \<lparr>address = 0x0506, length' = 2, type' = ''float'', access = ''R''\<rparr>),
    (''VOLTAGE_L2'', \<lparr>address = 0x0508, length' = 2, type' = ''float'', access = ''R''\<rparr>),
    (''VOLTAGE_L3'', \<lparr>address = 0x050A, length' = 2, type' = ''float'', access = ''R''\<rparr>),
    (''POWER_L1'', \<lparr>address = 0x050C, length' = 2, type' = ''float'', access = ''R''\<rparr>),
    (''POWER_L2'', \<lparr>address = 0x050E, length' = 2, type' = ''float'', access = ''R''\<rparr>),
    (''POWER_L3'', \<lparr>address = 0x0510, length' = 2, type' = ''float'', access = ''R''\<rparr>),
    (''POWER_OVERALL'', \<lparr>address = 0x0512, length' = 2, type' = ''float'', access = ''R''\<rparr>),
    (''MAXIMAL_EVSE_CURRENT'', \<lparr>address = 0x0706, length' = 1, type' = ''uint16'', access = ''RW''\<rparr>),
    (''PHASE_ROTATION_SETTING'', \<lparr>address = 0x070A, length' = 1, type' = ''uint16'', access = ''RW''\<rparr>),
    (''CONNECTED_PHASES'', \<lparr>address = 0x0710, length' = 1, type' = ''uint16'', access = ''RW''\<rparr>),
    (''PHASE_USAGE_SOLAR_CHARGING'', \<lparr>address = 0x071A, length' = 1, type' = ''uint16'', access = ''RW''\<rparr>),
    (''FALLBACK_CURRENT_MASTER_LOST'', \<lparr>address = 0x073A, length' = 1, type' = ''uint16'', access = ''RW''\<rparr>),
    (''SOLAR_CHARGING_ACTIVE'', \<lparr>address = 0x073C, length' = 1, type' = ''uint16'', access = ''RW''\<rparr>),
    (''PHASE_SWITCHING_PAUSE_SETTING'', \<lparr>address = 0x078C, length' = 1, type' = ''uint16'', access = ''RW''\<rparr>),
    (''TEMPERATURE'', \<lparr>address = 0x0900, length' = 2, type' = ''float'', access = ''R''\<rparr>),
    (''MAX_CURRENT_SESSION'', \<lparr>address = 0x0B00, length' = 2, type' = ''float'', access = ''R''\<rparr>),
    (''CHARGED_ENERGY_SESSION'', \<lparr>address = 0x0B02, length' = 2, type' = ''float'', access = ''R''\<rparr>),
    (''DURATION_SESSION'', \<lparr>address = 0x0B04, length' = 2, type' = ''uint32'', access = ''R''\<rparr>),
    (''DETECTED_EV_PHASES'', \<lparr>address = 0x0B06, length' = 1, type' = ''uint16'', access = ''R''\<rparr>),
    (''HEARTBEAT_EM'', \<lparr>address = 0x0D00, length' = 1, type' = ''uint16'', access = ''W''\<rparr>),
    (''CABLE_LOCK_STATUS'', \<lparr>address = 0x0D02, length' = 1, type' = ''uint16'', access = ''R''\<rparr>),
    (''SOLAR_CHARGING_MODE'', \<lparr>address = 0x0D03, length' = 1, type' = ''uint16'', access = ''RW''\<rparr>),
    (''REQUESTED_PHASES'', \<lparr>address = 0x0D04, length' = 1, type' = ''uint16'', access = ''RW''\<rparr>),
    (''CHARGING_RELEASE_EM'', \<lparr>address = 0x0D05, length' = 1, type' = ''uint16'', access = ''RW''\<rparr>),
    (''LOCK_EVSE'', \<lparr>address = 0x0D06, length' = 1, type' = ''uint16'', access = ''RW''\<rparr>),
    (''SYSTEM_RESTART'', \<lparr>address = 0x0D19, length' = 1, type' = ''uint16'', access = ''W''\<rparr>),
    (''ACTIVE_ERROR_CODE'', \<lparr>address = 0x0E00, length' = 1, type' = ''uint16'', access = ''R''\<rparr>),
    (''MASTER_LOST_FALLBACK_STATE'', \<lparr>address = 0x0E01, length' = 1, type' = ''uint16'', access = ''R''\<rparr>),
    (''SWITCHED_PHASES'', \<lparr>address = 0x0E02, length' = 1, type' = ''uint16'', access = ''R''\<rparr>),
    (''CHARGED_ENERGY_TOTAL'', \<lparr>address = 0x1000, length' = 2, type' = ''float'', access = ''R''\<rparr>),
    (''CHARGING_SESSIONS_TOTAL'', \<lparr>address = 0x1002, length' = 2, type' = ''uint32'', access = ''R''\<rparr>)]"

text \<open>
  \<open>REGISTERS\<close> is an object literal, so \<open>REGISTERS[registerName]\<close> is a property read
  that continues on \<open>Object.prototype\<close> when the object has no own property of that
  name. The inherited properties are functions, and \<open>__proto__\<close> is the prototype
  object itself: all of them are truthy and none has an \<open>access\<close> property.
\<close>

definition Object_prototype :: "string list" where
  "Object_prototype = [''constructor'', ''__defineGetter__'', ''__defineSetter__'',
     ''hasOwnProperty'', ''__lookupGetter__'', ''__lookupSetter__'', ''isPrototypeOf'',
     ''propertyIsEnumerable'', ''toString'', ''valueOf'', ''__proto__'', ''toLocaleString'']"

datatype property = Undefined | Inherited | Own register

definition REGISTERS_get :: "string \<Rightarrow> property" where
  "REGISTERS_get registerName =
     (case map_of REGISTERS registerName of
        Some register \<Rightarrow> Own register
      | None \<Rightarrow> if registerName \<in> set Object_prototype then Inherited else Undefined)"

text \<open>\<open>s.includes(sub)\<close>: \<open>sub\<close> occurs in \<open>s\<close> as a contiguous substring.\<close>

fun starts_with :: "string \<Rightarrow> string \<Rightarrow> bool" where
  "starts_with s [] = True"
| "starts_with [] (c # sub) = False"
| "starts_with (d # s) (c # sub) = (d = c \<and> starts_with s sub)"

fun str_includes :: "string \<Rightarrow> string \<Rightarrow> bool" where
  "str_includes [] sub = (sub = [])"
| "str_includes (d # s) sub = (starts_with (d # s) sub \<or> str_includes s sub)"

section \<open>The value codec\<close>

datatype jsvalue = Number jsnum | Text string

text \<open>
  The loop of the \<open>ascii\<close> case: for \<open>i = 0, 2, 4, ...\<close> below the length,
  \<open>swappedBuffer[i] = buffer[i + 1]\<close> and \<open>swappedBuffer[i + 1] = buffer[i]\<close>. At the last
  byte of a buffer of odd length \<open>buffer[i + 1]\<close> is \<open>undefined\<close>, stored as 0, and the
  store to index \<open>i + 1\<close> is outside the buffer and ignored.
\<close>

fun swappedBuffer :: "buffer \<Rightarrow> buffer" where
  "swappedBuffer (a # b # rest) = b # a # swappedBuffer rest"
| "swappedBuffer [a] = [0]"
| "swappedBuffer [] = []"

definition parseRegisterValue :: "register \<Rightarrow> buffer \<Rightarrow> error + jsvalue" where
  "parseRegisterValue register buffer =
     (if type' register = ''uint16'' then
        and_then (readUInt16BE buffer 0) (\<lambda>v. Inr (Number v))
      else if type' register = ''uint32'' then
        and_then (readUInt16BE buffer 2) (\<lambda>hi.
        and_then (readUInt16BE buffer 0) (\<lambda>lo.
          Inr (Number (js_or (js_shl hi 16) lo))))
      else if type' register = ''int16'' then
        and_then (readInt16BE buffer 0) (\<lambda>v. Inr (Number v))
      else if type' register = ''int32'' then
        and_then (readInt16BE buffer 2) (\<lambda>hi.
        and_then (readInt16BE buffer 0) (\<lambda>lo.
          Inr (Number (js_or (js_shl hi 16) lo))))
      else if type' register = ''float'' then
        and_then (readUInt16BE buffer 0) (\<lambda>w0.
        and_then (writeUInt16BE (allocUnsafe 4) w0 0) (\<lambda>tempBuffer.
        and_then (readUInt16BE buffer 2) (\<lambda>w1.
        and_then (writeUInt16BE tempBuffer w1 2) (\<lambda>tempBuffer.
        and_then (readFloatBE tempBuffer 0) (\<lambda>v. Inr (Number v))))))
      else if type' register = ''ascii'' then
        Inr (Text (trim (remove_nul (toString_ascii (swappedBuffer buffer)))))
      else Inl (UnknownType (type' register)))"

text \<open>The result is the array of 16-bit register values handed to the transport.\<close>

definition encodeRegisterValue :: "register \<Rightarrow> jsnum \<Rightarrow> error + jsnum list" where
  "encodeRegisterValue register v =
     (let buffer = allocUnsafe (length' register * 2) in
      if type' register = ''uint16'' then
        and_then (writeUInt16BE buffer v 0) (\<lambda>buffer.
        and_then (readUInt16BE buffer 0) (\<lambda>r0. Inr [r0]))
      else if type' register = ''uint32'' then
        and_then (writeUInt16BE buffer (js_and v (num 0xFFFF)) 0) (\<lambda>buffer.
        and_then (writeUInt16BE buffer (js_and (js_sar v 16) (num 0xFFFF)) 2) (\<lambda>buffer.
        and_then (readUInt16BE buffer 0) (\<lambda>r0.
        and_then (readUInt16BE buffer 2) (\<lambda>r1. Inr [r0, r1]))))
      else if type' register = ''int16'' then
        and_then (writeInt16BE buffer v 0) (\<lambda>buffer.
        and_then (readUInt16BE buffer 0) (\<lambda>r0. Inr [r0]))
      else if type' register = ''int32'' then
        and_then (writeInt16BE buffer (js_and v (num 0xFFFF)) 0) (\<lambda>buffer.
        and_then (writeInt16BE buffer (js_and (js_sar v 16) (num 0xFFFF)) 2) (\<lambda>buffer.
        and_then (readUInt16BE buffer 0) (\<lambda>r0.
        and_then (readUInt16BE buffer 2) (\<lambda>r1. Inr [r0, r1]))))
      else if type' register = ''float'' then
        and_then (writeFloatBE (allocUnsafe 4) v 0) (\<lambda>tempBuffer.
        and_then (readUInt16BE tempBuffer 0) (\<lambda>t0.
        and_then (writeUInt16BE buffer t0 0) (\<lambda>buffer.
        and_then (readUInt16BE tempBuffer 2) (\<lambda>t1.
        and_then (writeUInt16BE buffer t1 2) (\<lambda>buffer.
        and_then (readUInt16BE buffer 0) (\<lambda>r0.
        and_then (readUInt16BE buffer 2) (\<lambda>r1. Inr [r0, r1])))))))
      else Inl (CannotEncode (type' register)))"

text \<open>
  The transport carries a register value as two bytes, high byte first; a read returns
  the registers of the reply as one buffer (\<open>data.buffer\<close>). \<open>registers_buffer\<close> is that
  buffer for the given register values.
\<close>

definition register_bytes :: "jsnum \<Rightarrow> buffer" where
  "register_bytes v =
     (let w = (word_of_int (js_trunc v) :: 16 word) in [ucast (drop_bit 8 w), ucast w])"

definition registers_buffer :: "jsnum list \<Rightarrow> buffer" where
  "registers_buffer vs = concat (map register_bytes vs)"

text \<open>Encoding a value and decoding the registers that the encoder produced.\<close>

definition decode_encode :: "register \<Rightarrow> jsnum \<Rightarrow> error + jsvalue" where
  "decode_encode register v =
     and_then (encodeRegisterValue register v)
       (\<lambda>regs. parseRegisterValue register (registers_buffer regs))"

section \<open>The transport session\<close>

text \<open>
  The state of a \<open>ModbusClient\<close> together with the part of its environment that its
  methods act on. Of \<open>this.config\<close> the fields \<open>maxRetries\<close> and \<open>reconnectInterval\<close>
  are kept. The environment is explicit:
  \<^item> \<open>transport\<close> is the \<open>modbus-serial\<close> client: the outcome of its \<open>n\<close>-th call, a
    reply or a rejection with a message; \<open>wire\<close> lists the calls made so far;
  \<^item> \<open>emitted\<close> lists the events passed to \<open>emit\<close>; \<open>error_listener\<close> tells whether an
    \<open>'error'\<close> listener is registered (\<open>index.js\<close> registers one);
  \<^item> \<open>timers\<close> is the table of pending \<open>setTimeout\<close> and \<open>setInterval\<close> timers, keyed
    by the handle returned to the caller; \<open>next_timer\<close> is the next fresh handle;
  \<^item> \<open>delays\<close> lists the \<open>await this.delay(ms)\<close> pauses taken.
  Calls to the logger have no effect on the client and are left out. A method runs without
  interleaving of other tasks at its \<open>await\<close>s.
\<close>

datatype event = Connected | Disconnected | ConnectionLost | ErrorEvent error

datatype callback = reconnect_callback | heartbeat_callback | connection_check_callback

record timer =
  repeating :: bool
  ms :: nat
  callback :: callback

datatype wire_call =
    ConnectRTU
  | ReadHoldingRegisters nat nat
  | WriteRegister nat jsnum
  | WriteRegisters nat "jsnum list"

datatype response = Replies buffer | Fails string

record session =
  maxRetries :: int
  reconnectInterval :: nat
  isConnected :: bool
  reconnecting :: bool
  heartbeatInterval :: "nat option"
  connectionCheckInterval :: "nat option"
  error_listener :: bool
  transport :: "nat \<Rightarrow> response"
  wire :: "wire_call list"
  emitted :: "event list"
  timers :: "(nat \<times> timer) list"
  next_timer :: nat
  delays :: "nat list"

text \<open>
  The constructor: \<open>config.maxRetries || 3\<close> and \<open>config.reconnectInterval || 5000\<close>
  replace a missing or zero setting by the default.
\<close>

definition ModbusClient :: "int \<Rightarrow> nat \<Rightarrow> bool \<Rightarrow> (nat \<Rightarrow> response) \<Rightarrow> session" where
  "ModbusClient config_maxRetries config_reconnectInterval listener tr =
     \<lparr>maxRetries = (if config_maxRetries = 0 then 3 else config_maxRetries),
      reconnectInterval = (if config_reconnectInterval = 0 then 5000 else config_reconnectInterval),
      isConnected = False,
      reconnecting = False,
      heartbeatInterval = None,
      connectionCheckInterval = None,
      error_listener = listener,
      transport = tr,
      wire = [],
      emitted = [],
      timers = [],
      next_timer = 0,
      delays = []\<rparr>"

definition transport_call :: "wire_call \<Rightarrow> session \<Rightarrow> response \<times> session" where
  "transport_call c s = (transport s (length (wire s)), s\<lparr>wire := wire s @ [c]\<rparr>)"

definition emit :: "event \<Rightarrow> session \<Rightarrow> session" where
  "emit e s = s\<lparr>emitted := emitted s @ [e]\<rparr>"

definition setTimeout :: "callback \<Rightarrow> nat \<Rightarrow> session \<Rightarrow> nat \<times> session" where
  "setTimeout cb t s =
     (next_timer s,
      s\<lparr>timers := timers s @ [(next_timer s, \<lparr>repeating = False, ms = t, callback = cb\<rparr>)],
        next_timer := Suc (next_timer s)\<rparr>)"

definition setInterval :: "callback \<Rightarrow> nat \<Rightarrow> session \<Rightarrow> nat \<times> session" where
  "setInterval cb t s =
     (next_timer s,
      s\<lparr>timers := timers s @ [(next_timer s, \<lparr>repeating = True, ms = t, callback = cb\<rparr>)],
        next_timer := Suc (next_timer s)\<rparr>)"

definition clearInterval :: "nat \<Rightarrow> session \<Rightarrow> session" where
  "clearInterval h s = s\<lparr>timers := filter (\<lambda>(i, t). i \<noteq> h) (timers s)\<rparr>"

definition delay :: "nat \<Rightarrow> session \<Rightarrow> session" where
  "delay t s = s\<lparr>delays := delays s @ [t]\<rparr>"

definition scheduleReconnect :: "session \<Rightarrow> session" where
  "scheduleReconnect s =
     (if reconnecting s then s
      else snd (setTimeout reconnect_callback (reconnectInterval s) (s\<lparr>reconnecting := True\<rparr>)))"

definition startConnectionMonitoring :: "session \<Rightarrow> session" where
  "startConnectionMonitoring s =
     (case setInterval connection_check_callback 30000 s of
        (h, s1) \<Rightarrow> s1\<lparr>connectionCheckInterval := Some h\<rparr>)"

text \<open>
  \<open>connect\<close>. In the \<open>catch\<close> block \<open>this.emit('error', error)\<close> throws the error itself
  when no \<open>'error'\<close> listener is registered, so that \<open>scheduleReconnect\<close> is not reached.
\<close>

definition connect :: "session \<Rightarrow> (error + unit) \<times> session" where
  "connect s =
     (case transport_call ConnectRTU s of
        (Replies _, s1) \<Rightarrow>
          (Inr (),
           startConnectionMonitoring
             (emit Connected (s1\<lparr>isConnected := True, reconnecting := False\<rparr>)))
      | (Fails m, s1) \<Rightarrow>
          (let s2 = s1\<lparr>isConnected := False\<rparr> in
           if error_listener s2
           then (Inl (TransportError m),
                 scheduleReconnect (emit (ErrorEvent (TransportError m)) s2))
           else (Inl (TransportError m), s2)))"

text \<open>The \<open>try\<close> block of \<open>readRegister\<close>.\<close>

definition readRegister_try :: "register \<Rightarrow> session \<Rightarrow> (error + jsvalue) \<times> session" where
  "readRegister_try register s =
     (if \<not> isConnected s then (Inl NotConnected, s)
      else (case transport_call (ReadHoldingRegisters (address register) (length' register)) s of
              (Fails m, s1) \<Rightarrow> (Inl (TransportError m), s1)
            | (Replies buffer, s1) \<Rightarrow> (parseRegisterValue register buffer, s1)))"

text \<open>
  The end of the \<open>catch\<close> block, reached when no retry is left: \<open>Connection might be lost\<close>.
\<close>

definition connection_might_be_lost :: "error \<Rightarrow> session \<Rightarrow> session" where
  "connection_might_be_lost e s =
     (if str_includes (message e) ''Port Not Open'' \<or> str_includes (message e) ''Timed Out''
      then scheduleReconnect (emit ConnectionLost (s\<lparr>isConnected := False\<rparr>))
      else s)"

definition property_of_undefined :: error where
  "property_of_undefined = TypeError ''Cannot read properties of undefined''"

function readRegister :: "string \<Rightarrow> int \<Rightarrow> session \<Rightarrow> (error + jsvalue) \<times> session" where
  "readRegister registerName retryCount s =
     (case REGISTERS_get registerName of
        Undefined \<Rightarrow> (Inl (UnknownRegister registerName), s)
      | Inherited \<Rightarrow> (Inl property_of_undefined, s)
      | Own register \<Rightarrow>
          if \<not> str_includes (access register) ''R''
          then (Inl (NotReadable registerName), s)
          else (case readRegister_try register s of
                  (Inr v, s1) \<Rightarrow> (Inr v, s1)
                | (Inl e, s1) \<Rightarrow>
                    if retryCount < maxRetries s1
                    then readRegister registerName (retryCount + 1) (delay 500 s1)
                    else (Inl e, connection_might_be_lost e s1)))"
  by pat_completeness auto
termination
proof (relation "measure (\<lambda>(registerName, retryCount, s). nat (maxRetries s - retryCount))",
    goal_cases)
  case 1
  show ?case by simp
next
  case (2 registerName retryCount s register r s1 e)
  from 2(3) have "maxRetries s1 = maxRetries s"
    by (auto simp: readRegister_try_def transport_call_def
        split: if_splits prod.splits response.splits)
  with 2(5) show ?case by (simp add: delay_def)
qed

text \<open>
  The \<open>try\<close> block of \<open>writeRegister\<close>. \<open>encodeRegisterValue\<close> never returns an empty
  array; \<open>buffer[0]\<close> of an empty array would be \<open>undefined\<close>.
\<close>

definition writeRegister_try :: "register \<Rightarrow> jsnum \<Rightarrow> session \<Rightarrow> (error + unit) \<times> session" where
  "writeRegister_try register v s =
     (if \<not> isConnected s then (Inl NotConnected, s)
      else (case encodeRegisterValue register v of
              Inl e \<Rightarrow> (Inl e, s)
            | Inr buffer \<Rightarrow>
                (case transport_call
                        (if length' register = 1
                         then WriteRegister (address register)
                                (case buffer of [] \<Rightarrow> NaN | b0 # _ \<Rightarrow> b0)
                         else WriteRegisters (address register) buffer) s of
                   (Fails m, s1) \<Rightarrow> (Inl (TransportError m), s1)
                 | (Replies _, s1) \<Rightarrow> (Inr (), s1))))"

function writeRegister :: "string \<Rightarrow> jsnum \<Rightarrow> int \<Rightarrow> session \<Rightarrow> (error + unit) \<times> session" where
  "writeRegister registerName v retryCount s =
     (case REGISTERS_get registerName of
        Undefined \<Rightarrow> (Inl (UnknownRegister registerName), s)
      | Inherited \<Rightarrow> (Inl property_of_undefined, s)
      | Own register \<Rightarrow>
          if \<not> str_includes (access register) ''W''
          then (Inl (NotWritable registerName), s)
          else (case writeRegister_try register v s of
                  (Inr u, s1) \<Rightarrow> (Inr u, s1)
                | (Inl e, s1) \<Rightarrow>
                    if retryCount < maxRetries s1
                    then writeRegister registerName v (retryCount + 1) (delay 500 s1)
                    else (Inl e, connection_might_be_lost e s1)))"
  by pat_completeness auto
termination
proof (relation "measure (\<lambda>(registerName, v, retryCount, s). nat (maxRetries s - retryCount))",
    goal_cases)
  case 1
  show ?case by simp
next
  case (2 registerName v retryCount s register r s1 e)
  from 2(3) have "maxRetries s1 = maxRetries s"
    by (auto simp: writeRegister_try_def transport_call_def
        split: if_splits prod.splits response.splits sum.splits)
  with 2(5) show ?case by (simp add: delay_def)
qed

section \<open>The keep-alive scheduler and the timers\<close>

definition sendHeartbeat :: "session \<Rightarrow> session" where
  "sendHeartbeat s = snd (writeRegister ''HEARTBEAT_EM'' (num 0x55AA) 0 s)"

definition startHeartbeat :: "session \<Rightarrow> session" where
  "startHeartbeat s =
     (case heartbeatInterval s of
        Some h \<Rightarrow> s
      | None \<Rightarrow>
          (case setTimeout heartbeat_callback 2000 s of
             (h0, s1) \<Rightarrow>
               (case setInterval heartbeat_callback 9000 s1 of
                  (h, s2) \<Rightarrow> s2\<lparr>heartbeatInterval := Some h\<rparr>)))"

definition stopHeartbeat :: "session \<Rightarrow> session" where
  "stopHeartbeat s =
     (case heartbeatInterval s of
        Some h \<Rightarrow> (clearInterval h s)\<lparr>heartbeatInterval := None\<rparr>
      | None \<Rightarrow> s)"

text \<open>
  The three closures handed to \<open>setTimeout\<close> and \<open>setInterval\<close>: the reconnect attempt of
  \<open>scheduleReconnect\<close>, the heartbeat of \<open>startHeartbeat\<close> and the health check of
  \<open>startConnectionMonitoring\<close>.
\<close>

definition run_callback :: "callback \<Rightarrow> session \<Rightarrow> session" where
  "run_callback cb s =
     (case cb of
        reconnect_callback \<Rightarrow> snd (connect s)
      | heartbeat_callback \<Rightarrow> sendHeartbeat s
      | connection_check_callback \<Rightarrow>
          (case readRegister ''EVSE_STATE'' 0 s of
             (Inr v, s1) \<Rightarrow> s1
           | (Inl e, s1) \<Rightarrow>
               scheduleReconnect (emit ConnectionLost (s1\<lparr>isConnected := False\<rparr>))))"

text \<open>
  A pending timer comes due: its callback runs; a \<open>setTimeout\<close> timer leaves the table,
  a \<open>setInterval\<close> timer stays. A handle that is not pending does nothing.
\<close>

definition fire :: "nat \<Rightarrow> session \<Rightarrow> session" where
  "fire h s =
     (case map_of (timers s) h of
        None \<Rightarrow> s
      | Some t \<Rightarrow> run_callback (callback t) (if repeating t then s else clearInterval h s))"

text \<open>
  A transport for a test: the first calls are answered from the list, every later call by
  the default.
\<close>

definition scripted :: "response list \<Rightarrow> response \<Rightarrow> nat \<Rightarrow> response" where
  "scripted rs d n = (if n < length rs then rs ! n else d)"

section \<open>Facts about the numbers and the buffer operations\<close>

lemma js_trunc_num [simp]: "js_trunc (num i) = i"
  by (simp add: num_def)

lemma ToInt32_num [simp]: "ToInt32 (num i) = word_of_int i"
  by (simp add: ToInt32_def)

lemma uint16_in_range [simp]: "\<not> out_of_range (num (uint (w :: 16 word))) 0 0xFFFF"
proof -
  have "uint w \<le> 65535" using uint_lt2p [of w] by simp
  then have "(of_int (uint w) :: rat) \<le> of_int 65535" by (simp only: of_int_le_iff)
  moreover have "(of_int 0 :: rat) \<le> of_int (uint w)" by (simp only: of_int_le_iff uint_nonnegative)
  ultimately show ?thesis by (simp add: num_def not_less)
qed

lemma word16_hi [simp]: "ucast (drop_bit 8 (word16 a b)) = a"
  unfolding word16_def
  by (rule bit_word_eqI) (auto simp add: bit_simps dest: bit_imp_le_length)

lemma word16_lo [simp]: "ucast (word16 a b) = b"
  unfolding word16_def
  by (rule bit_word_eqI) (auto simp add: bit_simps dest: bit_imp_le_length)

lemma word16_bytes [simp]: "word16 (ucast (drop_bit 8 w)) (ucast w) = (w :: 16 word)"
  unfolding word16_def
  by (rule bit_word_eqI) (auto simp add: bit_simps dest: bit_imp_le_length)

lemma and_then_Inr [simp]: "and_then (Inr x) f = f x"
  by (simp add: and_then_def)

lemma and_then_Inl [simp]: "and_then (Inl e) f = Inl e"
  by (simp add: and_then_def)

lemma readUInt16BE_0 [simp]:
  "readUInt16BE (a # b # rest) 0 = Inr (num (uint (word16 a b)))"
  by (simp add: readUInt16BE_def)

lemma readUInt16BE_2 [simp]:
  "readUInt16BE (a # b # c # d # rest) 2 = Inr (num (uint (word16 c d)))"
  by (simp add: readUInt16BE_def numeral_2_eq_2)

lemma readInt16BE_0 [simp]:
  "readInt16BE (a # b # rest) 0 = Inr (num (sint (word16 a b)))"
  by (simp add: readInt16BE_def)

lemma readInt16BE_2 [simp]:
  "readInt16BE (a # b # c # d # rest) 2 = Inr (num (sint (word16 c d)))"
  by (simp add: readInt16BE_def numeral_2_eq_2)

lemma writeUInt16BE_0 [simp]:
  "writeUInt16BE (x # y # rest) (num (uint (w :: 16 word))) 0
     = Inr (ucast (drop_bit 8 w) # ucast w # rest)"
  by (simp add: writeUInt16BE_def writeU_Int16BE_def)

lemma writeUInt16BE_2 [simp]:
  "writeUInt16BE (a # b # x # y # rest) (num (uint (w :: 16 word))) 2
     = Inr (a # b # ucast (drop_bit 8 w) # ucast w # rest)"
  by (simp add: writeUInt16BE_def writeU_Int16BE_def numeral_2_eq_2 numeral_3_eq_3)

lemma allocUnsafe_4 [simp]: "allocUnsafe 4 = [0, 0, 0, 0]"
  by (simp add: allocUnsafe_def numeral_eq_Suc)

lemma readFloatBE_0 [simp]:
  "readFloatBE (a # b # c # d # rest) 0 = Inr (float32_value (word32 a b c d))"
  by (simp add: readFloatBE_def numeral_2_eq_2 numeral_3_eq_3)

lemma parse_float:
  "type' register = ''float'' \<Longrightarrow>
   parseRegisterValue register (a # b # c # d # rest)
     = Inr (Number (float32_value (word32 a b c d)))"
  by (simp add: parseRegisterValue_def)

lemma word_of_int_sint32 [simp]: "word_of_int (sint (w :: 32 word)) = w"
  by simp

lemma js_or_shl:
  "js_or (js_shl (num h) 16) (num l) = num (sint (push_bit 16 (word_of_int h) OR word_of_int l :: 32 word))"
  by (simp add: js_or_def js_shl_def)

lemma parse_uint32:
  "type' register = ''uint32'' \<Longrightarrow>
   parseRegisterValue register (a # b # c # d # rest)
     = Inr (Number (num (sint (push_bit 16 (ucast (word16 c d)) OR ucast (word16 a b) :: 32 word))))"
  by (simp add: parseRegisterValue_def js_or_shl)

lemma parse_int32:
  "type' register = ''int32'' \<Longrightarrow>
   parseRegisterValue register (a # b # c # d # rest)
     = Inr (Number (num (sint (push_bit 16 (scast (word16 c d)) OR scast (word16 a b) :: 32 word))))"
  by (simp add: parseRegisterValue_def js_or_shl)

lemma uint_hi_lo:
  fixes hi lo :: "16 word"
  shows "uint (push_bit 16 (ucast hi) OR ucast lo :: 32 word) = uint hi * 65536 + uint lo"
proof -
  have b: "uint hi \<le> 65535" "uint lo \<le> 65535" "0 \<le> uint hi" "0 \<le> uint lo"
    using uint_lt2p [of hi] uint_lt2p [of lo] by simp_all
  have "(push_bit 16 (ucast hi) OR ucast lo :: 32 word) = word_cat hi lo"
    by (simp add: word_cat_eq_push_bit_or)
  then have "uint (push_bit 16 (ucast hi) OR ucast lo :: 32 word)
      = take_bit 32 (concat_bit 16 (uint lo) (uint hi))"
    by (simp add: word_cat_eq' uint_word_of_int_eq)
  also have "concat_bit 16 (uint lo) (uint hi) = uint hi * 65536 + uint lo"
    using b by (simp add: concat_bit_eq take_bit_int_eq_self push_bit_eq_mult)
  also have "take_bit 32 (uint hi * 65536 + uint lo) = uint hi * 65536 + uint lo"
    using b by (intro take_bit_int_eq_self) simp_all
  finally show ?thesis .
qed

lemma sint32_of_uint:
  fixes w :: "32 word"
  shows "sint w = (if uint w < 2147483648 then uint w else uint w - 4294967296)"
proof -
  have b: "0 \<le> uint w" "uint w < 4294967296" using uint_lt2p [of w] by simp_all
  have s: "sint w = take_bit 32 (uint w + 2147483648) - 2147483648"
    by (simp add: sint_uint signed_take_bit_eq_take_bit_shift)
  show ?thesis
  proof (cases "uint w < 2147483648")
    case True
    then have "take_bit 32 (uint w + 2147483648) = uint w + 2147483648"
      using b by (intro take_bit_int_eq_self) simp_all
    with True s show ?thesis by simp
  next
    case False
    have "uint w + 2147483648 = (uint w - 2147483648) + 4294967296"
      by simp
    then have "take_bit 32 (uint w + 2147483648) = ((uint w - 2147483648) + 4294967296) mod 4294967296"
      by (simp only: take_bit_eq_mod) simp
    also have "\<dots> = take_bit 32 (uint w - 2147483648)"
      by (simp only: mod_add_self2 take_bit_eq_mod) simp
    also have "\<dots> = uint w - 2147483648"
      using b False by (intro take_bit_int_eq_self) simp_all
    finally show ?thesis using False s by simp
  qed
qed

lemma sint_hi_lo:
  fixes hi lo :: "16 word"
  shows "sint (push_bit 16 (ucast hi) OR ucast lo :: 32 word) =
     (if uint hi < 32768 then uint hi * 65536 + uint lo else uint hi * 65536 + uint lo - 4294967296)"
proof (cases "uint hi < 32768")
  case True
  then have "uint hi * 65536 + uint lo < 2147483648"
    using uint_lt2p [of lo] by simp
  with True show ?thesis by (simp add: sint32_of_uint uint_hi_lo)
next
  case False
  then have "\<not> uint hi * 65536 + uint lo < 2147483648"
    using uint_nonnegative [of lo] by linarith
  with False show ?thesis by (simp add: sint32_of_uint uint_hi_lo)
qed

section \<open>The codec on register values\<close>


lemma registers_buffer_2:
  "registers_buffer [num (uint (w0 :: 16 word)), num (uint (w1 :: 16 word))] =
     [ucast (drop_bit 8 w0), ucast w0, ucast (drop_bit 8 w1), ucast w1]"
  by (simp add: registers_buffer_def register_bytes_def)

text \<open>
  Claim C1 as stated fails: for the register pair \<open>[0x0000, 0x41A0]\<close> the decoder does
  not return 20.0. The bytes are parsed in buffer order, \<open>00 00 41 A0\<close>, which is the
  subnormal number \<open>16800 * 2^-149\<close>.
\<close>

theorem C1_counterexample:
  "parseRegisterValue \<lparr>address = 0x0306, length' = 2, type' = ''float'', access = ''R''\<rparr>
     (registers_buffer [num 0x0000, num 0x41A0]) \<noteq> Inr (Number (Fin 20))"
proof -
  have "registers_buffer [num 0x0000, num 0x41A0] = [0, 0, 0x41, 0xA0]"
    by (simp add: registers_buffer_def register_bytes_def)
  moreover have "float32_value (word32 0 0 0x41 0xA0) = Fin (16800 * pow2 (- 149))"
    by (simp add: float32_value_def word32_def)
  moreover have "Fin (16800 * pow2 (- 149)) \<noteq> Fin 20"
    by (simp add: pow2_def)
  ultimately show ?thesis
    by (simp add: parse_float)
qed

text \<open>
  Claim C1, amended: decoding a \<open>float\<close> register value keeps the buffer order. The two
  bytes of word 0 come first, then the two bytes of word 1, and the four bytes are read as
  one big-endian IEEE-754 single. It is the register pair \<open>[0x41A0, 0x0000]\<close> (high
  word first) that decodes to 20.0.
\<close>

theorem C1_float_decode:
  "parseRegisterValue (register\<lparr>type' := ''float''\<rparr>) (a # b # c # d # rest)
     = Inr (Number (float32_value (word32 a b c d)))
   \<and> parseRegisterValue (register\<lparr>type' := ''float''\<rparr>) (registers_buffer [num 0x41A0, num 0x0000])
     = Inr (Number (Fin 20))"
proof -
  have "registers_buffer [num 0x41A0, num 0x0000] = [0x41, 0xA0, 0, 0]"
    by (simp add: registers_buffer_def register_bytes_def)
  moreover have "float32_value (word32 0x41 0xA0 0 0) = Fin 20"
    by (simp add: float32_value_def word32_def pow2_def)
  ultimately show ?thesis by (simp add: parse_float)
qed

text \<open>
  Claim C3 at the register pair \<open>[lo, hi] = [0x0000, 0x8000]\<close>: the claim gives
  \<open>0x8000 * 2^16 + 0 = 2147483648\<close>, the decoder returns \<open>-2147483648\<close>, because
  \<open><<\<close> and \<open>|\<close> produce a signed 32-bit integer.
\<close>

theorem C3_uint32_negative:
  "parseRegisterValue \<lparr>address = 0x0B04, length' = 2, type' = ''uint32'', access = ''R''\<rparr>
     (registers_buffer [num 0x0000, num 0x8000]) = Inr (Number (num (- 2147483648)))"
  by code_simp

text \<open>
  In general the \<open>uint32\<close> decoder returns \<open>hi * 2^16 + lo\<close> exactly when the high word
  is below \<open>0x8000\<close>, and that value less \<open>2^32\<close> otherwise.
\<close>

lemma parse_uint32_words:
  fixes lo hi :: "16 word"
  assumes "type' register = ''uint32''"
  shows "parseRegisterValue register (registers_buffer [num (uint lo), num (uint hi)])
         = Inr (Number (num (if uint hi < 32768 then uint hi * 65536 + uint lo
                             else uint hi * 65536 + uint lo - 4294967296)))"
  by (simp only: registers_buffer_2 parse_uint32 [OF assms] word16_bytes sint_hi_lo)



subsection \<open>Where encoding and decoding are inverse\<close>

lemma allocUnsafe_2 [simp]: "allocUnsafe 2 = [0, 0]"
  by (simp add: allocUnsafe_def numeral_eq_Suc)

lemma registers_buffer_1:
  "registers_buffer [num (uint (w :: 16 word))] = [ucast (drop_bit 8 w), ucast w]"
  by (simp add: registers_buffer_def register_bytes_def)

lemma sint16_in_range [simp]: "\<not> out_of_range (num (sint (w :: 16 word))) (- 0x8000) 0x7FFF"
proof -
  have "sint w \<le> 32767" "- 32768 \<le> sint w"
    using sint_lt [of w] sint_ge [of w] by simp_all
  then have "(of_int (sint w) :: rat) \<le> of_int 32767" "(of_int (- 32768) :: rat) \<le> of_int (sint w)"
    by (simp_all only: of_int_le_iff)
  then show ?thesis by (simp add: num_def not_less)
qed

lemma writeInt16BE_0 [simp]:
  "writeInt16BE (x # y # rest) (num (sint (w :: 16 word))) 0
     = Inr (ucast (drop_bit 8 w) # ucast w # rest)"
  by (simp add: writeInt16BE_def writeU_Int16BE_def)

lemma decode_encode_uint16_word:
  assumes "type' register = ''uint16''" and "length' register = 1"
  shows "decode_encode register (num (uint (w :: 16 word))) = Inr (Number (num (uint w)))"
  using assms
  by (simp add: decode_encode_def encodeRegisterValue_def parseRegisterValue_def
      registers_buffer_1)

lemma decode_encode_int16_word:
  assumes "type' register = ''int16''" and "length' register = 1"
  shows "decode_encode register (num (sint (w :: 16 word))) = Inr (Number (num (sint w)))"
  using assms
  by (simp add: decode_encode_def encodeRegisterValue_def parseRegisterValue_def
      registers_buffer_1)

text \<open>Every value of the type is the \<open>uint\<close> (or \<open>sint\<close>) of a 16-bit word.\<close>

lemma decode_encode_uint16:
  assumes "type' register = ''uint16''" and "length' register = 1"
    and "0 \<le> i" and "i \<le> 65535"
  shows "decode_encode register (num i) = Inr (Number (num i))"
proof -
  have "uint (word_of_int i :: 16 word) = i"
    using assms(3,4) by (simp add: uint_word_of_int_eq take_bit_int_eq_self)
  with decode_encode_uint16_word [OF assms(1,2), of "word_of_int i"] show ?thesis
    by simp
qed

lemma decode_encode_int16:
  assumes "type' register = ''int16''" and "length' register = 1"
    and "- 32768 \<le> i" and "i \<le> 32767"
  shows "decode_encode register (num i) = Inr (Number (num i))"
proof -
  have "sint (word_of_int i :: 16 word) = i"
    using assms(3,4) by (simp add: sint_sbintrunc' signed_take_bit_int_eq_self)
  with decode_encode_int16_word [OF assms(1,2), of "word_of_int i"] show ?thesis
    by simp
qed

text \<open>
  For \<open>uint32\<close> the encoder keeps the low 32 bits of the integer and the decoder reads
  them as a signed integer: the value comes back exactly when it is below \<open>2^31\<close>.
\<close>

lemma sint_ucast16:
  "sint (ucast (x :: 16 word) :: 32 word) = uint x"
proof -
  have "uint (ucast x :: 32 word) = uint x"
    by (rule uint_up_ucast) (simp add: is_up)
  moreover have "uint x < 2147483648"
    using uint_lt2p [of x] by simp
  ultimately show ?thesis by (simp add: sint32_of_uint)
qed

lemma and_mask16:
  "(w AND mask 16 :: 32 word) = ucast (ucast w :: 16 word)"
  by (rule bit_word_eqI) (auto simp add: bit_simps dest: bit_imp_le_length)

lemma sar_and_mask16:
  "(signed_drop_bit 16 w AND mask 16 :: 32 word) = ucast (ucast (drop_bit 16 w) :: 16 word)"
  by (rule bit_word_eqI) (auto simp add: bit_simps dest: bit_imp_le_length)

lemma ToInt32_FFFF: "ToInt32 (num 0xFFFF) = mask 16"
  by (simp add: mask_eq_exp_minus_1)

lemma low_half:
  "js_and (num i) (num 0xFFFF) = num (uint (ucast (word_of_int i :: 32 word) :: 16 word))"
proof -
  have "js_and (num i) (num 0xFFFF) = num (sint (word_of_int i AND mask 16 :: 32 word))"
    by (simp only: js_and_def ToInt32_FFFF) (simp only: ToInt32_num)
  also have "\<dots> = num (uint (ucast (word_of_int i :: 32 word) :: 16 word))"
    by (simp only: and_mask16 sint_ucast16)
  finally show ?thesis .
qed

lemma high_half:
  "js_and (js_sar (num i) 16) (num 0xFFFF)
     = num (uint (ucast (drop_bit 16 (word_of_int i :: 32 word)) :: 16 word))"
proof -
  have "ToInt32 (js_sar (num i) 16) = signed_drop_bit 16 (word_of_int i)"
    by (simp add: js_sar_def)
  then have "js_and (js_sar (num i) 16) (num 0xFFFF)
      = num (sint (signed_drop_bit 16 (word_of_int i) AND mask 16 :: 32 word))"
    by (simp only: js_and_def ToInt32_FFFF)
  also have "\<dots> = num (uint (ucast (drop_bit 16 (word_of_int i :: 32 word)) :: 16 word))"
    by (simp only: sar_and_mask16 sint_ucast16)
  finally show ?thesis .
qed

lemma halves_join:
  "(push_bit 16 (ucast (ucast (drop_bit 16 w) :: 16 word)) OR ucast (ucast w :: 16 word)) = (w :: 32 word)"
  by (rule bit_word_eqI) (auto simp add: bit_simps dest: bit_imp_le_length)

lemma encode_uint32:
  assumes "type' register = ''uint32''" and "length' register = 2"
  shows "encodeRegisterValue register (num i) =
           Inr [num (uint (ucast (word_of_int i :: 32 word) :: 16 word)),
                num (uint (ucast (drop_bit 16 (word_of_int i :: 32 word)) :: 16 word))]"
  using assms by (simp add: encodeRegisterValue_def low_half high_half)

lemma decode_encode_uint32_wraps:
  assumes "type' register = ''uint32''" and "length' register = 2"
  shows "decode_encode register (num i) = Inr (Number (num (sint (word_of_int i :: 32 word))))"
  using assms
  by (simp add: decode_encode_def encode_uint32 registers_buffer_2 parse_uint32 halves_join)

lemma decode_encode_uint32:
  assumes "type' register = ''uint32''" and "length' register = 2"
    and "0 \<le> i" and "i < 2147483648"
  shows "decode_encode register (num i) = Inr (Number (num i))"
proof -
  have "sint (word_of_int i :: 32 word) = i"
    using assms(3,4) by (simp add: sint_sbintrunc' signed_take_bit_int_eq_self)
  then show ?thesis by (simp add: decode_encode_uint32_wraps [OF assms(1,2)])
qed

lemma decode_encode_uint32_large:
  assumes "type' register = ''uint32''" and "length' register = 2"
    and "2147483648 \<le> i" and "i < 4294967296"
  shows "decode_encode register (num i) = Inr (Number (num (i - 4294967296)))"
proof -
  have "uint (word_of_int i :: 32 word) = i"
    using assms(3,4) by (simp add: uint_word_of_int_eq take_bit_int_eq_self)
  then have "sint (word_of_int i :: 32 word) = i - 4294967296"
    using assms(3) by (simp add: sint32_of_uint)
  then show ?thesis by (simp add: decode_encode_uint32_wraps [OF assms(1,2)])
qed

text \<open>
  For \<open>int32\<close> the encoder hands the two unsigned halves \<open>value & 0xFFFF\<close> and
  \<open>(value >> 16) & 0xFFFF\<close> to \<open>writeInt16BE\<close>, which accepts a half only when it is at
  most \<open>0x7FFF\<close>. In particular no negative value is encoded.
\<close>

lemma out_of_range_int16_uint:
  "out_of_range (num (uint (x :: 16 word))) (- 0x8000) 0x7FFF \<longleftrightarrow> 32767 < uint x"
proof -
  have "(of_int 32767 :: rat) < of_int (uint x) \<longleftrightarrow> 32767 < uint x"
    by (simp only: of_int_less_iff)
  moreover have "\<not> (of_int (uint x) :: rat) < of_int (- 32768)"
    using uint_nonnegative [of x] by (simp only: of_int_less_iff)
  ultimately show ?thesis by (simp add: num_def)
qed

lemma writeInt16BE_uint:
  "writeInt16BE (a # b # rest) (num (uint (x :: 16 word))) 0 =
     (if 32767 < uint x then Inl value_out_of_range
      else Inr (ucast (drop_bit 8 x) # ucast x # rest))"
  by (simp add: writeInt16BE_def writeU_Int16BE_def out_of_range_int16_uint
      del: out_of_range.simps)

lemma writeInt16BE_uint_2:
  "writeInt16BE (a # b # c # d # rest) (num (uint (x :: 16 word))) 2 =
     (if 32767 < uint x then Inl value_out_of_range
      else Inr (a # b # ucast (drop_bit 8 x) # ucast x # rest))"
  by (simp add: writeInt16BE_def writeU_Int16BE_def out_of_range_int16_uint
      numeral_2_eq_2 numeral_3_eq_3 del: out_of_range.simps)

lemma encode_int32:
  assumes "type' register = ''int32''" and "length' register = 2"
  shows "encodeRegisterValue register (num i) =
           (if 32767 < uint (ucast (word_of_int i :: 32 word) :: 16 word)
               \<or> 32767 < uint (ucast (drop_bit 16 (word_of_int i :: 32 word)) :: 16 word)
            then Inl value_out_of_range
            else Inr [num (uint (ucast (word_of_int i :: 32 word) :: 16 word)),
                      num (uint (ucast (drop_bit 16 (word_of_int i :: 32 word)) :: 16 word))])"
  using assms
  by (simp add: encodeRegisterValue_def low_half high_half writeInt16BE_uint writeInt16BE_uint_2)

lemma high_half_negative:
  assumes "i < 0" and "- 2147483648 \<le> i"
  shows "32767 < uint (ucast (drop_bit 16 (word_of_int i :: 32 word)) :: 16 word)"
proof -
  have "i mod 4294967296 = (i + 4294967296) mod 4294967296"
    by simp
  also have "\<dots> = i + 4294967296"
    using assms by (intro mod_pos_pos_trivial) simp_all
  finally have u: "uint (word_of_int i :: 32 word) = i + 4294967296"
    by (simp add: uint_word_of_int_eq take_bit_eq_mod)
  have "uint (ucast (drop_bit 16 (word_of_int i :: 32 word)) :: 16 word)
      = (uint (word_of_int i :: 32 word) div 65536) mod 65536"
    by (simp only: unsigned_ucast_eq unsigned_drop_bit_eq)
      (simp add: take_bit_eq_mod drop_bit_eq_div uint_idem [where 'a = 32, simplified])
  also have "\<dots> = (i + 4294967296) div 65536 mod 65536"
    by (simp only: u)
  finally have h: "uint (ucast (drop_bit 16 (word_of_int i :: 32 word)) :: 16 word)
      = (i + 4294967296) div 65536 mod 65536" .
  have "(2147483648 :: int) div 65536 \<le> (i + 4294967296) div 65536"
    using assms(2) by (intro zdiv_mono1) simp_all
  then have lo: "32768 \<le> (i + 4294967296) div 65536" by simp
  have "(i + 4294967296) div 65536 \<le> (4294967295 :: int) div 65536"
    using assms(1) by (intro zdiv_mono1) simp_all
  then have hi: "(i + 4294967296) div 65536 < 65536" by simp
  have "(i + 4294967296) div 65536 mod 65536 = (i + 4294967296) div 65536"
    using lo hi by (intro mod_pos_pos_trivial) simp_all
  with h lo show ?thesis by simp
qed

lemma encode_int32_negative:
  assumes "type' register = ''int32''" and "length' register = 2"
    and "i < 0" and "- 2147483648 \<le> i"
  shows "encodeRegisterValue register (num i) = Inl value_out_of_range"
  using high_half_negative [OF assms(3,4)]
  by (simp add: encode_int32 [OF assms(1,2)])

subsection \<open>Single precision: the encoder inverts the decoder\<close>

lemma pow2_powi: "pow2 e = 2 powi e"
  by (simp add: pow2_def power_int_def inverse_eq_divide power_one_over
      flip: power_inverse)

lemma pow2_pos [simp]: "0 < pow2 e"
  by (simp add: pow2_powi)

lemma pow2_nonneg [simp]: "0 \<le> pow2 e"
  using pow2_pos [of e] by linarith

lemma pow2_not_negative [simp]: "\<not> pow2 e < 0"
  using pow2_pos [of e] by linarith

lemma pow2_nonzero [simp]: "pow2 e \<noteq> 0"
  using pow2_pos [of e] by linarith

lemma pow2_add: "pow2 (i + j) = pow2 i * pow2 j"
  by (simp add: pow2_powi power_int_add)

lemma pow2_less: "i < j \<Longrightarrow> pow2 i < pow2 j"
  by (simp add: pow2_powi power_int_strict_increasing)

lemma pow2_less_iff: "pow2 i < pow2 j \<longleftrightarrow> i < j"
proof
  assume "pow2 i < pow2 j"
  show "i < j"
  proof (rule ccontr)
    assume "\<not> i < j"
    then have "j = i \<or> j < i" by auto
    then have "pow2 j \<le> pow2 i" using pow2_less [of j i] by auto
    with \<open>pow2 i < pow2 j\<close> show False by simp
  qed
qed (rule pow2_less)

lemma pow2_nat: "pow2 (int n) = 2 ^ n"
  by (simp add: pow2_def)

declare bit_length.simps [simp del]

lemma bit_length_bounds:
  "0 < n \<Longrightarrow> 1 \<le> bit_length n \<and> 2 ^ nat (bit_length n - 1) \<le> n \<and> n < 2 ^ nat (bit_length n)"
proof (induction n rule: bit_length.induct)
  case (1 n)
  show ?case
  proof (cases "n = 1")
    case True
    have "bit_length 0 = 0" by (simp add: bit_length.simps [of 0])
    then have "bit_length 1 = 1" by (simp add: bit_length.simps [of 1])
    with True show ?thesis by simp
  next
    case False
    with 1(2) have h: "0 < n div 2" by simp
    from 1(2) have ne: "\<not> n \<le> 0" by simp
    from 1(1) [OF ne h] have ih: "1 \<le> bit_length (n div 2)"
      "2 ^ nat (bit_length (n div 2) - 1) \<le> n div 2"
      "n div 2 < 2 ^ nat (bit_length (n div 2))"
      by simp_all
    have bl: "bit_length n = 1 + bit_length (n div 2)"
      using ne by (simp add: bit_length.simps [of n])
    have p: "(2 :: int) ^ nat (bit_length (n div 2)) = 2 * 2 ^ nat (bit_length (n div 2) - 1)"
      using ih(1) by (simp add: nat_diff_distrib flip: power_Suc) 
    have "2 * 2 ^ nat (bit_length (n div 2) - 1) \<le> n" using ih(2) by linarith
    moreover have "n < 2 * 2 ^ nat (bit_length (n div 2))" using ih(3) by linarith
    ultimately show ?thesis using ih(1) p
      by (simp add: bl nat_add_distrib)
  qed
qed

lemma bit_length_pow2:
  assumes "0 < n"
  shows "pow2 (bit_length n - 1) \<le> of_int n" and "of_int n < pow2 (bit_length n)"
proof -
  from bit_length_bounds [OF assms]
  have b: "1 \<le> bit_length n" "2 ^ nat (bit_length n - 1) \<le> n" "n < 2 ^ nat (bit_length n)"
    by simp_all
  have "pow2 (bit_length n - 1) = of_int (2 ^ nat (bit_length n - 1))"
    using b(1) by (simp add: pow2_def)
  also have "\<dots> \<le> of_int n" using b(2) by (simp only: of_int_le_iff)
  finally show "pow2 (bit_length n - 1) \<le> of_int n" .
  have "(of_int n :: rat) < of_int (2 ^ nat (bit_length n))"
    using b(3) by (simp only: of_int_less_iff)
  also have "\<dots> = pow2 (bit_length n)" using b(1) by (simp add: pow2_def)
  finally show "of_int n < pow2 (bit_length n)" .
qed

lemma floor_log2_bounds:
  assumes "0 < a"
  shows "pow2 (floor_log2 a) \<le> a" and "a < pow2 (floor_log2 a + 1)"
proof -
  obtain p q where pq: "quotient_of a = (p, q)" by (cases "quotient_of a")
  then have q: "0 < q" and a: "a = of_int p / of_int q"
    by (simp_all add: quotient_of_denom_pos quotient_of_div)
  from assms a q have p: "0 < p" by (simp add: zero_less_divide_iff)
  define d where "d = bit_length p - bit_length q"
  have fl: "floor_log2 a = (if pow2 d \<le> a then d else d - 1)"
    by (simp add: floor_log2_def pq d_def)
  have qr: "(0 :: rat) < of_int q" using q by simp
  have "pow2 (bit_length p - 1) \<le> of_int p" "of_int q < pow2 (bit_length q)"
    using bit_length_pow2 [OF p] bit_length_pow2 [OF q] by simp_all
  then have "pow2 (bit_length p - 1) * of_int q < of_int p * pow2 (bit_length q)"
    using qr by (intro mult_le_less_imp_less) simp_all
  then have "pow2 (bit_length p - 1) / pow2 (bit_length q) < a"
    using qr by (simp add: a field_simps)
  moreover have "pow2 (bit_length p - 1) / pow2 (bit_length q) = pow2 (d - 1)"
    using pow2_add [of "d - 1" "bit_length q"] by (simp add: d_def)
  ultimately have lower: "pow2 (d - 1) < a" by simp
  have "of_int p < pow2 (bit_length p)" "pow2 (bit_length q - 1) \<le> of_int q"
    using bit_length_pow2 [OF p] bit_length_pow2 [OF q] by simp_all
  then have "of_int p * pow2 (bit_length q - 1) < pow2 (bit_length p) * of_int q"
    using qr p by (intro mult_less_le_imp_less) simp_all
  then have "a < pow2 (bit_length p) / pow2 (bit_length q - 1)"
    using qr by (simp add: a field_simps)
  moreover have "pow2 (bit_length p) / pow2 (bit_length q - 1) = pow2 (d + 1)"
    using pow2_add [of "d + 1" "bit_length q - 1"] by (simp add: d_def)
  ultimately have upper: "a < pow2 (d + 1)" by simp
  show "pow2 (floor_log2 a) \<le> a" using lower by (simp add: fl)
  show "a < pow2 (floor_log2 a + 1)" using upper by (auto simp add: fl not_le)
qed

lemma floor_log2_unique:
  assumes "pow2 k \<le> a" and "a < pow2 (k + 1)"
  shows "floor_log2 a = k"
proof -
  have "0 < a" using assms(1) pow2_pos [of k] by linarith
  note b = floor_log2_bounds [OF this]
  have "pow2 (floor_log2 a) < pow2 (k + 1)" using b(1) assms(2) by linarith
  then have "floor_log2 a < k + 1" by (simp only: pow2_less_iff)
  moreover have "pow2 k < pow2 (floor_log2 a + 1)" using b(2) assms(1) by linarith
  then have "k < floor_log2 a + 1" by (simp only: pow2_less_iff)
  ultimately show ?thesis by simp
qed

lemma round_half_even_int [simp]: "round_half_even (of_int k) = k"
  by (simp add: round_half_even_def)

lemma pow2_23: "pow2 23 = 8388608" and pow2_24: "pow2 24 = 16777216"
  by (simp_all add: pow2_def)

lemma magnitude_normal:
  assumes "8388608 \<le> M" and "M < 16777216" and "- 126 \<le> E" and "E \<le> 127"
  shows "float32_magnitude (of_int M * pow2 (E - 23)) = word_of_int ((E + 126) * 8388608 + M)"
proof -
  define a where "a = of_int M * pow2 (E - 23)"
  have M: "(8388608 :: rat) \<le> of_int M" "(of_int M :: rat) < 16777216"
    using assms(1,2) by linarith+
  have "pow2 E = 8388608 * pow2 (E - 23)"
    using pow2_add [of 23 "E - 23"] by (simp add: pow2_23)
  also have "\<dots> \<le> a"
    unfolding a_def using M(1) by (intro mult_right_mono) simp_all
  finally have lower: "pow2 E \<le> a" .
  have "a < 16777216 * pow2 (E - 23)"
    unfolding a_def using M(2) by (intro mult_strict_right_mono) simp_all
  also have "\<dots> = pow2 (E + 1)"
  proof -
    have "E + 1 = 24 + (E - 23)" by simp
    then have "pow2 (E + 1) = pow2 24 * pow2 (E - 23)"
      by (simp only: pow2_add)
    then show ?thesis by (simp only: pow2_24)
  qed
  finally have upper: "a < pow2 (E + 1)" .
  have fl: "floor_log2 a = E" using lower upper by (rule floor_log2_unique)
  have pos: "a \<noteq> 0" using lower pow2_pos [of E] by linarith
  have q: "a / pow2 (E - 23) = of_int M" by (simp add: a_def)
  have "(E + 126) * 8388608 \<le> 253 * 8388608"
    using assms(4) by (intro mult_right_mono) simp_all
  then have small: "\<not> 2139095040 \<le> (E + 126) * 8388608 + M"
    using assms(2) by simp
  show ?thesis
    unfolding a_def [symmetric]
    using assms(3) small by (simp add: float32_magnitude_def fl pos q Let_def max_def)
qed

lemma magnitude_subnormal:
  assumes "0 < m" and "m < 8388608"
  shows "float32_magnitude (of_int m * pow2 (- 149)) = word_of_int m"
proof -
  define a where "a = of_int m * pow2 (- 149)"
  have m: "(0 :: rat) < of_int m" "(of_int m :: rat) < 8388608"
    using assms by linarith+
  have pos: "0 < a" unfolding a_def using m(1) by simp
  have "a < 8388608 * pow2 (- 149)"
    unfolding a_def using m(2) by (intro mult_strict_right_mono) simp_all
  also have "\<dots> = pow2 (- 126)"
    using pow2_add [of 23 "- 149"] by (simp add: pow2_23)
  finally have "pow2 (floor_log2 a) < pow2 (- 126)"
    using floor_log2_bounds(1) [OF pos] by linarith
  then have fl: "floor_log2 a < - 126" by (simp only: pow2_less_iff)
  have q: "a / pow2 (- 149) = of_int m" by (simp add: a_def)
  show ?thesis
    unfolding a_def [symmetric]
    using fl pos assms(2) by (simp add: float32_magnitude_def q Let_def max_def)
qed

lemma float_fields_join:
  fixes w :: "32 word"
  shows "push_bit 23 (drop_bit 23 w AND mask 8) + (w AND mask 23) = w AND mask 31"
proof -
  have "push_bit 23 (drop_bit 23 w AND mask 8) + (w AND mask 23)
      = push_bit 23 (drop_bit 23 w AND mask 8) OR (w AND mask 23)"
    by (rule disjunctive_add) (auto simp add: bit_simps)
  also have "\<dots> = w AND mask 31"
    by (rule bit_word_eqI) (auto simp add: bit_simps)
  finally show ?thesis .
qed

lemma float_fields:
  fixes w :: "32 word"
  defines "e \<equiv> unat (drop_bit 23 w AND 0xFF)" and "m \<equiv> unat (w AND 0x7FFFFF)"
  shows "word_of_int (int e * 8388608 + int m) = w AND mask 31"
    and "e < 256" and "m < 8388608"
proof -
  have m8: "(0xFF :: 32 word) = mask 8" and m23: "(0x7FFFFF :: 32 word) = mask 23"
    by (simp_all add: mask_eq_exp_minus_1)
  have "(word_of_int (int e * 8388608 + int m) :: 32 word)
      = (drop_bit 23 w AND mask 8) * 8388608 + (w AND mask 23)"
    by (simp add: e_def m_def m8 m23)
  also have "\<dots> = push_bit 23 (drop_bit 23 w AND mask 8) + (w AND mask 23)"
    by (simp add: push_bit_eq_mult)
  also have "\<dots> = w AND mask 31" by (rule float_fields_join)
  finally show "word_of_int (int e * 8388608 + int m) = w AND mask 31" .
  have "drop_bit 23 w AND mask 8 < (2 ^ 8 :: 32 word)"
    by (rule and_mask_less') simp
  then show "e < 256" by (simp add: e_def m8 word_less_nat_alt)
  have "w AND mask 23 < (2 ^ 23 :: 32 word)"
    by (rule and_mask_less') simp
  then show "m < 8388608" by (simp add: m_def m23 word_less_nat_alt)
qed

lemma sign_join:
  fixes w :: "32 word"
  shows "\<not> bit w 31 \<Longrightarrow> w AND mask 31 = w"
    and "bit w 31 \<Longrightarrow> (w AND mask 31) OR 0x80000000 = w"
proof -
  have "(0x80000000 :: 32 word) = 2 ^ 31" by simp
  then have s: "bit (0x80000000 :: 32 word) n \<longleftrightarrow> n = 31" for n
    by (simp only: bit_exp_iff) auto
  show "w AND mask 31 = w" if "\<not> bit w 31"
  proof (rule bit_word_eqI)
    fix n assume "n < LENGTH(32)"
    then have "n = 31 \<or> n < 31" by auto
    with that show "bit (w AND mask 31) n = bit w n" by (auto simp add: bit_simps)
  qed
  show "(w AND mask 31) OR 0x80000000 = w" if "bit w 31"
  proof (rule bit_word_eqI)
    fix n assume "n < LENGTH(32)"
    then have "n = 31 \<or> n < 31" by auto
    with that s [of n] show "bit (w AND mask 31 OR 0x80000000) n = bit w n"
      by (auto simp only: bit_and_iff bit_or_iff bit_mask_iff possible_bit_word) simp_all
  qed
qed

lemma float32_bits_signed:
  assumes "0 < A"
  shows "float32_bits (Fin (- A)) = float32_magnitude A OR 0x80000000"
    and "float32_bits (Fin A) = float32_magnitude A"
  using assms by simp_all

lemma float32_bits_value:
  assumes "float32_value w \<noteq> NaN"
  shows "float32_bits (float32_value w) = w"
proof -
  define e where "e = unat (drop_bit 23 w AND 0xFF)"
  define m where "m = unat (w AND 0x7FFFFF)"
  note f = float_fields [of w, folded e_def m_def]
  have v: "float32_value w =
      (if e = 255 then (if m = 0 then (if bit w 31 then NegInf else PosInf) else NaN)
       else if e = 0 then
         (if m = 0 then (if bit w 31 then NegZero else Fin 0)
          else Fin ((if bit w 31 then - 1 else 1) * of_int (int m) * pow2 (- 149)))
       else Fin ((if bit w 31 then - 1 else 1) * of_int (8388608 + int m) * pow2 (int e - 150)))"
    by (simp add: float32_value_def Let_def e_def m_def)
  have join: "(if bit w 31 then (w AND mask 31) OR 0x80000000 else w AND mask 31) = w"
    using sign_join [of w] by simp
  consider (inf) "e = 255" "m = 0" | (nan) "e = 255" "m \<noteq> 0" | (zero) "e = 0" "m = 0"
    | (sub) "e = 0" "0 < m" | (norm) "0 < e" "e < 255"
    using f(2) by linarith
  then show ?thesis
  proof cases
    case inf
    with f(1) have "w AND mask 31 = 0x7F800000" by simp
    with join inf show ?thesis by (auto simp add: v split: if_splits)
  next
    case nan
    with assms show ?thesis by (simp add: v)
  next
    case zero
    with f(1) have "w AND mask 31 = 0" by simp
    with join zero show ?thesis
      by (auto simp add: v float32_magnitude_def split: if_splits)
  next
    case sub
    have mag: "float32_magnitude (of_int (int m) * pow2 (- 149)) = w AND mask 31"
      using magnitude_subnormal [of "int m"] sub f(1,3) by simp
    define A :: rat where "A = of_int (int m) * pow2 (- 149)"
    have pos: "0 < A" using sub by (simp add: A_def)
    have val: "float32_value w = Fin (if bit w 31 then - A else A)"
      using sub by (simp add: v A_def)
    show ?thesis
      using join mag [folded A_def]
      by (cases "bit w 31") (simp_all only: val float32_bits_signed [OF pos] if_True if_False)
  next
    case norm
    have "float32_magnitude (of_int (8388608 + int m) * pow2 ((int e - 127) - 23))
        = word_of_int (((int e - 127) + 126) * 8388608 + (8388608 + int m))"
      using norm f(3) by (intro magnitude_normal) simp_all
    moreover have "((int e - 127) + 126) * 8388608 + (8388608 + int m) = int e * 8388608 + int m"
      by (simp add: algebra_simps)
    moreover have "(int e - 127) - 23 = int e - 150" by simp
    ultimately have mag: "float32_magnitude (of_int (8388608 + int m) * pow2 (int e - 150)) = w AND mask 31"
      using f(1) by simp
    define A :: rat where "A = of_int (8388608 + int m) * pow2 (int e - 150)"
    have pos: "0 < A" unfolding A_def by (intro mult_pos_pos) simp_all
    have val: "float32_value w = Fin (if bit w 31 then - A else A)"
      using norm by (simp add: v A_def algebra_simps)
    show ?thesis
      using join mag [folded A_def]
      by (cases "bit w 31") (simp_all only: val float32_bits_signed [OF pos] if_True if_False)
  qed
qed

lemma word32_bytes [simp]:
  "word32 (ucast (drop_bit 24 w)) (ucast (drop_bit 16 w)) (ucast (drop_bit 8 w)) (ucast w)
     = (w :: 32 word)"
  unfolding word32_def
proof (rule bit_word_eqI)
  fix n
  assume "n < LENGTH(32)"
  then consider "n < 8" | "8 \<le> n" "n < 16" | "16 \<le> n" "n < 24" | "24 \<le> n" "n < 32"
    by (cases "n < 8"; cases "n < 16"; cases "n < 24") simp_all
  then show "bit (push_bit 24 (ucast (ucast (drop_bit 24 w) :: 8 word))
                  OR push_bit 16 (ucast (ucast (drop_bit 16 w) :: 8 word))
                  OR push_bit 8 (ucast (ucast (drop_bit 8 w) :: 8 word))
                  OR ucast (ucast w :: 8 word) :: 32 word) n = bit w n"
    by cases (auto simp add: bit_simps dest: bit_imp_le_length)
qed

lemma writeFloatBE_0 [simp]:
  "writeFloatBE [a, b, c, d] v 0 =
     Inr [ucast (drop_bit 24 (float32_bits v)), ucast (drop_bit 16 (float32_bits v)),
          ucast (drop_bit 8 (float32_bits v)), ucast (float32_bits v)]"
  by (simp add: writeFloatBE_def Let_def numeral_2_eq_2 numeral_3_eq_3)

text \<open>
  For \<open>float\<close> the encoder writes the single-precision pattern of the value in the
  order of the decoder, so every number that is a single-precision value comes back
  unchanged (NaN excepted, which has many patterns and is not equal to itself).
\<close>

lemma decode_encode_float_bits:
  assumes "type' register = ''float''" and "length' register = 2"
  shows "decode_encode register v = Inr (Number (float32_value (float32_bits v)))"
  using assms
  by (simp add: decode_encode_def encodeRegisterValue_def registers_buffer_2 parse_float)

lemma decode_encode_float:
  assumes "type' register = ''float''" and "length' register = 2"
    and "float32_value w \<noteq> NaN"
  shows "decode_encode register (float32_value w) = Inr (Number (float32_value w))"
  by (simp add: decode_encode_float_bits [OF assms(1,2)] float32_bits_value [OF assms(3)])

text \<open>
  Claim C2 demands the round trip for every value of every type. It is exact for
  \<open>uint16\<close>, \<open>int16\<close> and \<open>float\<close> and for \<open>uint32\<close> below \<open>2^31\<close> (the lemmas
  above); it fails at these two inputs. The \<open>uint32\<close> value \<open>2147483648\<close> is encoded as the registers
  \<open>[0x0000, 0x8000]\<close>, and these decode to \<open>-2147483648\<close>. The \<open>int32\<close> value
  \<open>-1\<close> is not encoded at all: its low half \<open>value & 0xFFFF = 65535\<close> is handed to
  \<open>writeInt16BE\<close>, which rejects every value above 32767.
\<close>

theorem C2_roundtrip_fails:
  "encodeRegisterValue \<lparr>address = 0x0B04, length' = 2, type' = ''uint32'', access = ''R''\<rparr>
     (num 2147483648) = Inr [num 0x0000, num 0x8000]
   \<and> decode_encode \<lparr>address = 0x0B04, length' = 2, type' = ''uint32'', access = ''R''\<rparr>
     (num 2147483648) = Inr (Number (num (- 2147483648)))
   \<and> decode_encode \<lparr>address = 0, length' = 2, type' = ''int32'', access = ''RW''\<rparr>
     (num (- 1)) = Inl value_out_of_range"
  by code_simp

section \<open>Register operations of the session\<close>

declare readRegister.simps [simp del] writeRegister.simps [simp del]

lemma readRegister_Undefined:
  "REGISTERS_get registerName = Undefined \<Longrightarrow>
   readRegister registerName retryCount s = (Inl (UnknownRegister registerName), s)"
  by (simp add: readRegister.simps)

lemma writeRegister_Undefined:
  "REGISTERS_get registerName = Undefined \<Longrightarrow>
   writeRegister registerName v retryCount s = (Inl (UnknownRegister registerName), s)"
  by (simp add: writeRegister.simps)

lemma readRegister_Inherited:
  "REGISTERS_get registerName = Inherited \<Longrightarrow>
   readRegister registerName retryCount s = (Inl property_of_undefined, s)"
  by (simp add: readRegister.simps)

lemma writeRegister_Inherited:
  "REGISTERS_get registerName = Inherited \<Longrightarrow>
   writeRegister registerName v retryCount s = (Inl property_of_undefined, s)"
  by (simp add: writeRegister.simps)

lemma readRegister_NotReadable:
  "REGISTERS_get registerName = Own register \<Longrightarrow> \<not> str_includes (access register) ''R'' \<Longrightarrow>
   readRegister registerName retryCount s = (Inl (NotReadable registerName), s)"
  by (simp add: readRegister.simps)

lemma writeRegister_NotWritable:
  "REGISTERS_get registerName = Own register \<Longrightarrow> \<not> str_includes (access register) ''W'' \<Longrightarrow>
   writeRegister registerName v retryCount s = (Inl (NotWritable registerName), s)"
  by (simp add: writeRegister.simps)

text \<open>
  A name that is not a key of the catalog never reaches the transport: the call fails
  before the \<open>try\<close> block, with \<open>UnknownRegister\<close> or with the \<open>TypeError\<close>, and leaves
  the session as it was.
\<close>

lemma readRegister_not_in_catalog:
  assumes "map_of REGISTERS registerName = None"
  shows "readRegister registerName retryCount s =
           (Inl (if registerName \<in> set Object_prototype then property_of_undefined
                 else UnknownRegister registerName), s)"
  using assms by (simp add: readRegister.simps REGISTERS_get_def)

lemma writeRegister_not_in_catalog:
  assumes "map_of REGISTERS registerName = None"
  shows "writeRegister registerName v retryCount s =
           (Inl (if registerName \<in> set Object_prototype then property_of_undefined
                 else UnknownRegister registerName), s)"
  using assms by (simp add: writeRegister.simps REGISTERS_get_def)

lemma REGISTERS_get_constructor: "REGISTERS_get ''constructor'' = Inherited"
  by (simp add: REGISTERS_get_def REGISTERS_def Object_prototype_def)

lemma REGISTERS_get_toString: "REGISTERS_get ''toString'' = Inherited"
  by (simp add: REGISTERS_get_def REGISTERS_def Object_prototype_def)

text \<open>
  Claim C8 at the name \<open>constructor\<close>, which is not in the catalog. The property read
  \<open>REGISTERS['constructor']\<close> finds \<open>Object.prototype.constructor\<close>, a function, so the
  test \<open>!register\<close> does not reject it; \<open>register.access\<close> is \<open>undefined\<close> and
  \<open>register.access.includes('R')\<close> throws a \<open>TypeError\<close>. The transport is not called and
  the session is unchanged, but the error is not \<open>UnknownRegister\<close>.
\<close>

theorem C8_inherited_name:
  "readRegister ''constructor'' retryCount s = (Inl property_of_undefined, s)
   \<and> property_of_undefined \<noteq> UnknownRegister ''constructor''"
  by (simp add: readRegister_Inherited REGISTERS_get_constructor property_of_undefined_def)

text \<open>
  Claim C10 at the name \<open>toString\<close> on a session that is not connected: \<open>readRegister\<close>
  and \<open>writeRegister\<close> fail before the connection check, without retry or delay and
  without a change of the session, but with the \<open>TypeError\<close> of the inherited property and
  not with \<open>UnknownRegister\<close>.
\<close>

theorem C10_inherited_name_disconnected:
  "readRegister ''toString'' 0 (s\<lparr>isConnected := False\<rparr>)
     = (Inl property_of_undefined, s\<lparr>isConnected := False\<rparr>)
   \<and> writeRegister ''toString'' v 0 (s\<lparr>isConnected := False\<rparr>)
     = (Inl property_of_undefined, s\<lparr>isConnected := False\<rparr>)
   \<and> property_of_undefined \<noteq> UnknownRegister ''toString''"
  by (simp add: readRegister_Inherited writeRegister_Inherited REGISTERS_get_toString
      property_of_undefined_def)

subsection \<open>A call on a session that is not connected\<close>

lemma NotConnected_keeps_session [simp]: "connection_might_be_lost NotConnected s = s"
  by (simp add: connection_might_be_lost_def)

lemma readRegister_not_connected:
  assumes "REGISTERS_get registerName = Own register" and "str_includes (access register) ''R''"
  shows "\<not> isConnected s \<Longrightarrow>
         readRegister registerName retryCount s =
           (Inl NotConnected,
            s\<lparr>delays := delays s @ replicate (nat (maxRetries s - retryCount)) 500\<rparr>)"
proof (induction "nat (maxRetries s - retryCount)" arbitrary: retryCount s)
  case 0
  then have "\<not> retryCount < maxRetries s" by simp
  with 0 assms show ?case
    by (simp add: readRegister.simps [of registerName retryCount s] readRegister_try_def)
next
  case (Suc k)
  then have lt: "retryCount < maxRetries s" by linarith
  have k: "k = nat (maxRetries (delay 500 s) - (retryCount + 1))"
    using Suc(2) by (simp add: delay_def)
  have "\<not> isConnected (delay 500 s)" using Suc(3) by (simp add: delay_def)
  then have "readRegister registerName (retryCount + 1) (delay 500 s) =
      (Inl NotConnected, (delay 500 s)\<lparr>delays := delays (delay 500 s) @ replicate k 500\<rparr>)"
    using Suc(1) [OF k] k by simp
  moreover have "(delay 500 s)\<lparr>delays := delays (delay 500 s) @ replicate k 500\<rparr> =
      s\<lparr>delays := delays s @ replicate (nat (maxRetries s - retryCount)) 500\<rparr>"
    using Suc(2) [symmetric] by (simp add: delay_def)
  moreover have "readRegister registerName retryCount s = readRegister registerName (retryCount + 1) (delay 500 s)"
    using lt Suc(3) assms
    by (simp add: readRegister.simps [of registerName retryCount s] readRegister_try_def)
  ultimately show ?case by simp
qed

lemma writeRegister_not_connected:
  assumes "REGISTERS_get registerName = Own register" and "str_includes (access register) ''W''"
  shows "\<not> isConnected s \<Longrightarrow>
         writeRegister registerName v retryCount s =
           (Inl NotConnected,
            s\<lparr>delays := delays s @ replicate (nat (maxRetries s - retryCount)) 500\<rparr>)"
proof (induction "nat (maxRetries s - retryCount)" arbitrary: retryCount s)
  case 0
  then have "\<not> retryCount < maxRetries s" by simp
  with 0 assms show ?case
    by (simp add: writeRegister.simps [of registerName v retryCount s] writeRegister_try_def)
next
  case (Suc k)
  then have lt: "retryCount < maxRetries s" by linarith
  have k: "k = nat (maxRetries (delay 500 s) - (retryCount + 1))"
    using Suc(2) by (simp add: delay_def)
  have "\<not> isConnected (delay 500 s)" using Suc(3) by (simp add: delay_def)
  then have "writeRegister registerName v (retryCount + 1) (delay 500 s) =
      (Inl NotConnected, (delay 500 s)\<lparr>delays := delays (delay 500 s) @ replicate k 500\<rparr>)"
    using Suc(1) [OF k] k by simp
  moreover have "(delay 500 s)\<lparr>delays := delays (delay 500 s) @ replicate k 500\<rparr> =
      s\<lparr>delays := delays s @ replicate (nat (maxRetries s - retryCount)) 500\<rparr>"
    using Suc(2) [symmetric] by (simp add: delay_def)
  moreover have "writeRegister registerName v retryCount s = writeRegister registerName v (retryCount + 1) (delay 500 s)"
    using lt Suc(3) assms
    by (simp add: writeRegister.simps [of registerName v retryCount s] writeRegister_try_def)
  ultimately show ?case by simp
qed

lemmas session_eval =
  ModbusClient_def scripted_def REGISTERS_get_def REGISTERS_def Object_prototype_def
  readRegister.simps writeRegister.simps readRegister_try_def writeRegister_try_def
  transport_call_def emit_def delay_def connection_might_be_lost_def scheduleReconnect_def
  setTimeout_def setInterval_def clearInterval_def startConnectionMonitoring_def connect_def
  sendHeartbeat_def startHeartbeat_def stopHeartbeat_def run_callback_def fire_def

text \<open>
  Claim C4 as stated fails: on a client that was never connected, with the default
  \<open>maxRetries = 3\<close>, \<open>readRegister('EVSE_STATE')\<close> takes three retry delays of 500 ms
  before it fails.
\<close>

theorem C4_counterexample:
  "delays (snd (readRegister ''EVSE_STATE'' 0
      (ModbusClient 3 5000 True (scripted [] (Fails ''Port Not Open''))))) = [500, 500, 500]"
  by (simp add: session_eval)

text \<open>
  Claim C4, amended: the connection check is inside the \<open>try\<close> block, so a
  \<open>readRegister\<close> or \<open>writeRegister\<close> call on a known, accessible register of a session
  that is not connected is retried like any other failure. It fails with \<open>NotConnected\<close>
  after \<open>maxRetries\<close> retries, each after a delay of 500 ms; the transport is not called
  and nothing but the delays changes in the session.
\<close>

theorem C4_not_connected_retried:
  assumes "REGISTERS_get registerName = Own register" and "\<not> isConnected s"
  shows "(str_includes (access register) ''R'' \<longrightarrow>
            readRegister registerName 0 s =
              (Inl NotConnected, s\<lparr>delays := delays s @ replicate (nat (maxRetries s)) 500\<rparr>))
       \<and> (str_includes (access register) ''W'' \<longrightarrow>
            writeRegister registerName v 0 s =
              (Inl NotConnected, s\<lparr>delays := delays s @ replicate (nat (maxRetries s)) 500\<rparr>))"
  using readRegister_not_connected [OF assms(1) _ assms(2), of 0]
    writeRegister_not_connected [OF assms(1) _ assms(2), of v 0]
  by simp

theorem C4_witness:
  "REGISTERS_get ''CHARGING_CURRENT_EM''
     = Own \<lparr>address = 0x0302, length' = 2, type' = ''float'', access = ''RW''\<rparr>
   \<and> \<not> isConnected (ModbusClient 3 5000 True (scripted [] (Fails ''Port Not Open'')))
   \<and> str_includes ''RW'' ''R'' \<and> str_includes ''RW'' ''W''
   \<and> readRegister ''CHARGING_CURRENT_EM'' 0
         (ModbusClient 3 5000 True (scripted [] (Fails ''Port Not Open'')))
       = (Inl NotConnected,
          (ModbusClient 3 5000 True (scripted [] (Fails ''Port Not Open'')))
            \<lparr>delays := [500, 500, 500]\<rparr>)
   \<and> writeRegister ''CHARGING_CURRENT_EM'' (num 16) 0
         (ModbusClient 3 5000 True (scripted [] (Fails ''Port Not Open'')))
       = (Inl NotConnected,
          (ModbusClient 3 5000 True (scripted [] (Fails ''Port Not Open'')))
            \<lparr>delays := [500, 500, 500]\<rparr>)"
proof -
  have r: "REGISTERS_get ''CHARGING_CURRENT_EM''
     = Own \<lparr>address = 0x0302, length' = 2, type' = ''float'', access = ''RW''\<rparr>"
    by (simp add: REGISTERS_get_def REGISTERS_def)
  have n: "\<not> isConnected (ModbusClient 3 5000 True (scripted [] (Fails ''Port Not Open'')))"
    by (simp add: ModbusClient_def)
  show ?thesis
    using C4_not_connected_retried [OF r n, of "num 16"] r n
    by (simp add: ModbusClient_def numeral_eq_Suc)
qed

subsection \<open>A transport failure on a connected session\<close>

lemma readRegister_transport_failure:
  assumes "REGISTERS_get registerName = Own register"
    and "str_includes (access register) ''R''"
    and "isConnected s"
    and "transport s (length (wire s)) = Fails m"
  shows "readRegister registerName retryCount s =
           (if retryCount < maxRetries s
            then readRegister registerName (retryCount + 1)
                   (delay 500
                     (s\<lparr>wire := wire s @ [ReadHoldingRegisters (address register) (length' register)]\<rparr>))
            else (Inl (TransportError m),
                  connection_might_be_lost (TransportError m)
                    (s\<lparr>wire := wire s @ [ReadHoldingRegisters (address register) (length' register)]\<rparr>)))"
  using assms
  by (simp add: readRegister.simps [of registerName retryCount s] readRegister_try_def
      transport_call_def)

lemma writeRegister_transport_failure:
  assumes "REGISTERS_get registerName = Own register"
    and "str_includes (access register) ''W''"
    and "isConnected s"
    and "encodeRegisterValue register v = Inr (b0 # buffer)"
    and "transport s (length (wire s)) = Fails m"
  shows "writeRegister registerName v retryCount s =
           (if retryCount < maxRetries s
            then writeRegister registerName v (retryCount + 1)
                   (delay 500
                     (s\<lparr>wire := wire s @
                         [if length' register = 1 then WriteRegister (address register) b0
                          else WriteRegisters (address register) (b0 # buffer)]\<rparr>))
            else (Inl (TransportError m),
                  connection_might_be_lost (TransportError m)
                    (s\<lparr>wire := wire s @
                         [if length' register = 1 then WriteRegister (address register) b0
                          else WriteRegisters (address register) (b0 # buffer)]\<rparr>)))"
  using assms
  by (simp add: writeRegister.simps [of registerName v retryCount s] writeRegister_try_def
      transport_call_def)

text \<open>
  Claim C5 as stated fails. The client connects; the first read attempt is rejected with
  \<open>Port Not Open\<close>, the retry is answered. The call returns the value, and the session
  after it differs from the session before it only in the two transport calls and the one
  delay: it is still connected, no \<open>connectionLost\<close> was emitted and no reconnect timer
  was added.
\<close>

theorem C5_counterexample:
  "readRegister ''EVSE_STATE'' 0
     (snd (connect (ModbusClient 3 5000 True
        (scripted [Replies [], Fails ''Port Not Open''] (Replies [0, 1])))))
   = (Inr (Number (num 1)),
      (snd (connect (ModbusClient 3 5000 True
        (scripted [Replies [], Fails ''Port Not Open''] (Replies [0, 1])))))
        \<lparr>wire := [ConnectRTU, ReadHoldingRegisters 0x0100 1, ReadHoldingRegisters 0x0100 1],
         delays := [500]\<rparr>)"
  by (simp add: session_eval parseRegisterValue_def word16_def)

text \<open>
  Claim C5, amended: the loss of the connection is looked at only when no retry is left.
  When a read or write attempt on a connected session is rejected by the transport, then
  \<^item> if \<open>retryCount < maxRetries\<close>, whatever the error (port closed and timed out
    included), the call waits 500 ms and tries again, on a session in which nothing but
    the record of the transport call and of the delay has changed;
  \<^item> if no retry is left and the error says that the port is closed (\<open>Port Not Open\<close>),
    the session is marked as not connected, \<open>connectionLost\<close> is emitted, a reconnect is
    scheduled (unless one is already pending), and the error is thrown.
  What happens to a timeout when no retry is left is not part of the statement.
\<close>

theorem C5_connection_lost_after_retries:
  assumes "REGISTERS_get registerName = Own register"
    and "isConnected s"
    and "transport s (length (wire s)) = Fails m"
  shows "(str_includes (access register) ''R'' \<longrightarrow>
            (retryCount < maxRetries s \<longrightarrow>
               readRegister registerName retryCount s =
                 readRegister registerName (retryCount + 1)
                   (delay 500
                     (s\<lparr>wire := wire s @
                         [ReadHoldingRegisters (address register) (length' register)]\<rparr>)))
          \<and> (\<not> retryCount < maxRetries s \<and> str_includes m ''Port Not Open'' \<longrightarrow>
               readRegister registerName retryCount s =
                 (Inl (TransportError m),
                  scheduleReconnect (emit ConnectionLost
                    (s\<lparr>wire := wire s @
                         [ReadHoldingRegisters (address register) (length' register)],
                       isConnected := False\<rparr>)))))
       \<and> (str_includes (access register) ''W'' \<and> encodeRegisterValue register v = Inr (b0 # buffer) \<longrightarrow>
            (retryCount < maxRetries s \<longrightarrow>
               writeRegister registerName v retryCount s =
                 writeRegister registerName v (retryCount + 1)
                   (delay 500
                     (s\<lparr>wire := wire s @
                         [if length' register = 1 then WriteRegister (address register) b0
                          else WriteRegisters (address register) (b0 # buffer)]\<rparr>)))
          \<and> (\<not> retryCount < maxRetries s \<and> str_includes m ''Port Not Open'' \<longrightarrow>
               writeRegister registerName v retryCount s =
                 (Inl (TransportError m),
                  scheduleReconnect (emit ConnectionLost
                    (s\<lparr>wire := wire s @
                         [if length' register = 1 then WriteRegister (address register) b0
                          else WriteRegisters (address register) (b0 # buffer)],
                       isConnected := False\<rparr>)))))"
proof -
  have lost: "connection_might_be_lost (TransportError m) t
      = scheduleReconnect (emit ConnectionLost (t\<lparr>isConnected := False\<rparr>))"
    if "str_includes m ''Port Not Open''" for t
    using that by (simp add: connection_might_be_lost_def)
  show ?thesis
    using readRegister_transport_failure [OF assms(1) _ assms(2,3), of retryCount]
      writeRegister_transport_failure [OF assms(1) _ assms(2) _ assms(3), of v b0 buffer retryCount]
    by (simp add: lost)
qed

theorem C5_witness:
  "REGISTERS_get ''CHARGING_CURRENT_EM''
     = Own \<lparr>address = 0x0302, length' = 2, type' = ''float'', access = ''RW''\<rparr>
   \<and> isConnected (snd (connect (ModbusClient 3 5000 True (scripted [Replies []] (Fails ''Port Not Open'')))))
   \<and> str_includes ''Port Not Open'' ''Port Not Open''
   \<and> str_includes ''RW'' ''R'' \<and> str_includes ''RW'' ''W''
   \<and> encodeRegisterValue \<lparr>address = 0x0302, length' = 2, type' = ''float'', access = ''RW''\<rparr> (num 16)
       = Inr [num 0x4180, num 0]
   \<and> readRegister ''CHARGING_CURRENT_EM'' 3
        (snd (connect (ModbusClient 3 5000 True (scripted [Replies []] (Fails ''Port Not Open'')))))
       = (Inl (TransportError ''Port Not Open''),
          (snd (connect (ModbusClient 3 5000 True (scripted [Replies []] (Fails ''Port Not Open'')))))
            \<lparr>isConnected := False, reconnecting := True,
             wire := [ConnectRTU, ReadHoldingRegisters 0x0302 2],
             emitted := [Connected, ConnectionLost],
             timers := [(0, \<lparr>repeating = True, ms = 30000, callback = connection_check_callback\<rparr>),
                        (1, \<lparr>repeating = False, ms = 5000, callback = reconnect_callback\<rparr>)],
             next_timer := 2\<rparr>)
   \<and> writeRegister ''CHARGING_CURRENT_EM'' (num 16) 3
        (snd (connect (ModbusClient 3 5000 True (scripted [Replies []] (Fails ''Port Not Open'')))))
       = (Inl (TransportError ''Port Not Open''),
          (snd (connect (ModbusClient 3 5000 True (scripted [Replies []] (Fails ''Port Not Open'')))))
            \<lparr>isConnected := False, reconnecting := True,
             wire := [ConnectRTU, WriteRegisters 0x0302 [num 0x4180, num 0]],
             emitted := [Connected, ConnectionLost],
             timers := [(0, \<lparr>repeating = True, ms = 30000, callback = connection_check_callback\<rparr>),
                        (1, \<lparr>repeating = False, ms = 5000, callback = reconnect_callback\<rparr>)],
             next_timer := 2\<rparr>)
   \<and> isConnected (snd (connect (ModbusClient 3 5000 True (scripted [Replies []] (Fails ''Timed out'')))))
   \<and> readRegister ''CHARGING_CURRENT_EM'' 0
        (snd (connect (ModbusClient 3 5000 True (scripted [Replies []] (Fails ''Timed out'')))))
       = readRegister ''CHARGING_CURRENT_EM'' 1
          ((snd (connect (ModbusClient 3 5000 True (scripted [Replies []] (Fails ''Timed out'')))))
            \<lparr>wire := [ConnectRTU, ReadHoldingRegisters 0x0302 2], delays := [500]\<rparr>)
   \<and> writeRegister ''CHARGING_CURRENT_EM'' (num 16) 0
        (snd (connect (ModbusClient 3 5000 True (scripted [Replies []] (Fails ''Timed out'')))))
       = writeRegister ''CHARGING_CURRENT_EM'' (num 16) 1
          ((snd (connect (ModbusClient 3 5000 True (scripted [Replies []] (Fails ''Timed out'')))))
            \<lparr>wire := [ConnectRTU, WriteRegisters 0x0302 [num 0x4180, num 0]], delays := [500]\<rparr>)"
proof -
  let ?r = "\<lparr>address = 0x0302, length' = 2, type' = ''float'', access = ''RW''\<rparr>"
  have r: "REGISTERS_get ''CHARGING_CURRENT_EM'' = Own ?r"
    by (simp add: REGISTERS_get_def REGISTERS_def)
  have s: "snd (connect (ModbusClient 3 5000 True (scripted [Replies []] (Fails x)))) =
     \<lparr>maxRetries = 3, reconnectInterval = 5000, isConnected = True,
      reconnecting = False, heartbeatInterval = None, connectionCheckInterval = Some 0,
      error_listener = True, transport = scripted [Replies []] (Fails x),
      wire = [ConnectRTU], emitted = [Connected],
      timers = [(0, \<lparr>repeating = True, ms = 30000, callback = connection_check_callback\<rparr>)],
      next_timer = 1, delays = []\<rparr>" for x
    by (simp add: ModbusClient_def connect_def transport_call_def scripted_def emit_def
        startConnectionMonitoring_def setInterval_def)
  have c: "isConnected (snd (connect (ModbusClient 3 5000 True (scripted [Replies []] (Fails x)))))"
    for x by (simp add: s)
  have t: "transport (snd (connect (ModbusClient 3 5000 True (scripted [Replies []] (Fails x)))))
      (length (wire (snd (connect (ModbusClient 3 5000 True (scripted [Replies []] (Fails x)))))))
      = Fails x" for x
    by (simp add: s scripted_def)
  have e: "encodeRegisterValue ?r (num 16) = Inr [num 0x4180, num 0]"
    by code_simp
  show ?thesis
    using C5_connection_lost_after_retries [OF r c [of "''Port Not Open''"] t [of "''Port Not Open''"],
          of 3 "num 16" "num 0x4180" "[num 0]"]
      C5_connection_lost_after_retries [OF r c [of "''Timed out''"] t [of "''Timed out''"],
          of 0 "num 16" "num 0x4180" "[num 0]"]
      r e
    by (simp add: s scheduleReconnect_def emit_def setTimeout_def delay_def)
qed

text \<open>
  The test for a timeout in the \<open>catch\<close> block is \<open>error.message.includes('Timed Out')\<close>,
  with a capital O. A rejection whose message spells \<open>Timed out\<close>, as the timeout of
  \<open>modbus-serial\<close> does, is not recognised by it: with no retry left, the error is thrown
  and the session stays as it is.
\<close>

lemma timed_out_not_recognised:
  "connection_might_be_lost (TransportError ''Timed out'') s = s"
  by (simp add: connection_might_be_lost_def)

lemma readRegister_timed_out_exhausted:
  assumes "REGISTERS_get registerName = Own register"
    and "str_includes (access register) ''R''"
    and "isConnected s"
    and "transport s (length (wire s)) = Fails ''Timed out''"
    and "\<not> retryCount < maxRetries s"
  shows "readRegister registerName retryCount s =
           (Inl (TransportError ''Timed out''),
            s\<lparr>wire := wire s @ [ReadHoldingRegisters (address register) (length' register)]\<rparr>)"
  using assms(5)
  by (simp add: readRegister_transport_failure [OF assms(1-4)] timed_out_not_recognised)

subsection \<open>Reconnection\<close>

text \<open>
  While \<open>reconnecting\<close> is set, a failing \<open>connect\<close> schedules nothing: the flag is
  cleared only where \<open>connect\<close> succeeds, and \<open>scheduleReconnect\<close> returns at once when
  it is set.
\<close>

lemma connect_fails_while_reconnecting:
  assumes "reconnecting s" and "transport s (length (wire s)) = Fails m"
  shows "timers (snd (connect s)) = timers s \<and> reconnecting (snd (connect s))
         \<and> \<not> isConnected (snd (connect s))"
  using assms
  by (simp add: connect_def transport_call_def scheduleReconnect_def emit_def Let_def)

lemma fire_reconnect_fails:
  assumes "map_of (timers s) h = Some \<lparr>repeating = False, ms = t, callback = reconnect_callback\<rparr>"
    and "reconnecting s" and "transport s (length (wire s)) = Fails m"
  shows "timers (fire h s) = filter (\<lambda>(i, t). i \<noteq> h) (timers s)"
  using assms
  by (simp add: fire_def run_callback_def clearInterval_def connect_def transport_call_def
      scheduleReconnect_def emit_def Let_def)

text \<open>
  Claim C6 on a transport that rejects every \<open>connectRTU\<close>. The first \<open>connect\<close> fails and
  schedules one reconnect attempt after \<open>reconnectInterval\<close>. When that timer comes due,
  \<open>connect\<close> is called and fails again, and after it no timer is pending: \<open>reconnecting\<close>
  is still set from the first scheduling, so \<open>scheduleReconnect\<close> does nothing, and no
  further reconnect attempt will be made.
\<close>

theorem C6_no_further_reconnect:
  "snd (connect (ModbusClient 3 5000 True (scripted [] (Fails ''Port Not Open''))))
     = (ModbusClient 3 5000 True (scripted [] (Fails ''Port Not Open'')))
         \<lparr>reconnecting := True,
          wire := [ConnectRTU],
          emitted := [ErrorEvent (TransportError ''Port Not Open'')],
          timers := [(0, \<lparr>repeating = False, ms = 5000, callback = reconnect_callback\<rparr>)],
          next_timer := 1\<rparr>
   \<and> fire 0 (snd (connect (ModbusClient 3 5000 True (scripted [] (Fails ''Port Not Open'')))))
     = (ModbusClient 3 5000 True (scripted [] (Fails ''Port Not Open'')))
         \<lparr>reconnecting := True,
          wire := [ConnectRTU, ConnectRTU],
          emitted := [ErrorEvent (TransportError ''Port Not Open''),
                      ErrorEvent (TransportError ''Port Not Open'')],
          timers := [],
          next_timer := 1\<rparr>"
  by (simp add: session_eval)

text \<open>
  The same on a session that was connected. The connection is lost (four read attempts
  are rejected with \<open>Port Not Open\<close>), one reconnect attempt is scheduled (handle 1) and
  fails; afterwards the health check (handle 0) fails as well. Only the health-check timer
  is pending then: neither failure has scheduled a reconnect attempt.
\<close>

lemma reconnect_not_rescheduled_after_loss:
  "timers (fire 0 (fire 1 (snd (readRegister ''EVSE_STATE'' 0
      (snd (connect (ModbusClient 3 5000 True (scripted [Replies []] (Fails ''Port Not Open'')))))))))
     = [(0, \<lparr>repeating = True, ms = 30000, callback = connection_check_callback\<rparr>)]
   \<and> wire (fire 0 (fire 1 (snd (readRegister ''EVSE_STATE'' 0
      (snd (connect (ModbusClient 3 5000 True (scripted [Replies []] (Fails ''Port Not Open'')))))))))
     = [ConnectRTU, ReadHoldingRegisters 0x0100 1, ReadHoldingRegisters 0x0100 1,
        ReadHoldingRegisters 0x0100 1, ReadHoldingRegisters 0x0100 1, ConnectRTU]"
  by (simp add: session_eval)

subsection \<open>The keep-alive scheduler\<close>

lemma stopHeartbeat_not_running:
  "heartbeatInterval s = None \<Longrightarrow> stopHeartbeat s = s"
  by (simp add: stopHeartbeat_def)

lemma stopHeartbeat_keeps_first_beat:
  assumes "heartbeatInterval s = None" and "\<forall>(i, t) \<in> set (timers s). i < next_timer s"
  shows "timers (stopHeartbeat (startHeartbeat s)) =
           timers s @ [(next_timer s, \<lparr>repeating = False, ms = 2000, callback = heartbeat_callback\<rparr>)]"
proof -
  have "filter (\<lambda>(i, t). i \<noteq> Suc (next_timer s)) (timers s) = timers s"
    using assms(2) by (intro filter_True) auto
  with assms(1) show ?thesis
    by (simp add: stopHeartbeat_def startHeartbeat_def setTimeout_def setInterval_def
        clearInterval_def)
qed

text \<open>
  Claim C9 on the start-up sequence of \<open>index.js\<close>: \<open>connect\<close>, then \<open>startHeartbeat\<close>,
  and \<open>stopHeartbeat\<close> before the first beat. \<open>stopHeartbeat\<close> clears the interval timer
  (handle 2) only; the handle of the 2000 ms \<open>setTimeout\<close> was never stored, and the timer
  (handle 1) is still pending beside the health check (handle 0). When it comes due,
  the heartbeat value \<open>0x55AA\<close> is written to register \<open>0x0D00\<close>.
\<close>

theorem C9_first_beat_after_stop:
  "timers (stopHeartbeat (startHeartbeat
      (snd (connect (ModbusClient 3 5000 True (scripted [] (Replies [])))))))
     = [(0, \<lparr>repeating = True, ms = 30000, callback = connection_check_callback\<rparr>),
        (1, \<lparr>repeating = False, ms = 2000, callback = heartbeat_callback\<rparr>)]
   \<and> wire (fire 1 (stopHeartbeat (startHeartbeat
      (snd (connect (ModbusClient 3 5000 True (scripted [] (Replies []))))))))
     = [ConnectRTU, WriteRegister 0x0D00 (num 0x55AA)]"
proof -
  have e: "encodeRegisterValue \<lparr>address = 0x0D00, length' = 1, type' = ''uint16'', access = ''W''\<rparr>
      (num 0x55AA) = Inr [num 0x55AA]"
    by code_simp
  then show ?thesis
    by (simp add: session_eval)
qed

end
